theory Spec2Isabelle
  imports Main "HOL-Library.Word"
begin

unbundle bit_operations_syntax

chapter \<open>veritas-ai-backend: session tokens, the authorization gate and the auth routes\<close>

text \<open>
  The repository is an Express service. \<^verbatim>\<open>src/lib/jwt.ts\<close> issues and checks session
  tokens, \<^verbatim>\<open>src/lib/auth-middleware.ts\<close> guards the protected routes, and
  \<^verbatim>\<open>src/routes/auth.ts\<close> (in two variants) holds the signup and signin handlers.

  Conventions of the embedding.
  \<^item> A JavaScript string is modelled by the list of bytes of its UTF-8 encoding
    (\<^typ>\<open>string\<close>); \<open>undefined\<close> is \<^term>\<open>None\<close>.
  \<^item> \<^verbatim>\<open>Date.now()\<close> is an explicit argument \<open>now\<close>, in milliseconds.
  \<^item> A \<^verbatim>\<open>throw\<close> is the \<^term>\<open>Inl\<close> branch of a sum; \<^verbatim>\<open>try/catch\<close> is a case distinction on it.
  \<^item> The answers of the external collaborators (the Supabase store, Supabase Auth,
    bcrypt, uuid) are arguments of the handlers; a handler returns its response together
    with the store as it leaves it.
  \<^item> Logging (\<^verbatim>\<open>console.log\<close>, \<^verbatim>\<open>console.error\<close>) has no part in any response and is left
    out.
\<close>

section \<open>The embedding\<close>

subsection \<open>base64url (RFC 4648, section 5, without padding)\<close>

definition b64url_char :: "nat \<Rightarrow> char" where
  "b64url_char n =
     (if n < 26 then char_of (65 + n)
      else if n < 52 then char_of (71 + n)
      else if n < 62 then char_of (n - 4)
      else if n = 62 then CHR ''-'' else CHR ''_'')"

definition b64url_val :: "char \<Rightarrow> nat option" where
  "b64url_val c =
     (let k = (of_char c :: nat) in
      if 65 \<le> k \<and> k \<le> 90 then Some (k - 65)
      else if 97 \<le> k \<and> k \<le> 122 then Some (k - 71)
      else if 48 \<le> k \<and> k \<le> 57 then Some (k + 4)
      else if k = 45 then Some 62
      else if k = 95 then Some 63
      else None)"

definition is_b64url :: "char \<Rightarrow> bool" where
  "is_b64url c = (b64url_val c \<noteq> None)"

fun base64url :: "string \<Rightarrow> string" where
  "base64url [] = []"
| "base64url [a] =
     (let x = (of_char a :: nat) in [b64url_char (x div 4), b64url_char (x mod 4 * 16)])"
| "base64url [a, b] =
     (let x = (of_char a :: nat); y = (of_char b :: nat) in
      [b64url_char (x div 4), b64url_char (x mod 4 * 16 + y div 16), b64url_char (y mod 16 * 4)])"
| "base64url (a # b # c # bs) =
     (let x = (of_char a :: nat); y = (of_char b :: nat); z = (of_char c :: nat) in
      b64url_char (x div 4) # b64url_char (x mod 4 * 16 + y div 16)
        # b64url_char (y mod 16 * 4 + z div 64) # b64url_char (z mod 64) # base64url bs)"

text \<open>
  Decoding as Node's \<^verbatim>\<open>Buffer.from(s, 'base64')\<close> does it on a string of the alphabet:
  every four characters give three bytes, two or three trailing characters give one or
  two bytes, a single trailing character gives none.
\<close>

fun base64url_decode :: "string \<Rightarrow> string option" where
  "base64url_decode [] = Some []"
| "base64url_decode [a] = (case b64url_val a of None \<Rightarrow> None | Some _ \<Rightarrow> Some [])"
| "base64url_decode [a, b] =
     (case (b64url_val a, b64url_val b) of
        (Some p, Some q) \<Rightarrow> Some [char_of (p * 4 + q div 16)]
      | _ \<Rightarrow> None)"
| "base64url_decode [a, b, c] =
     (case (b64url_val a, b64url_val b, b64url_val c) of
        (Some p, Some q, Some r) \<Rightarrow>
          Some [char_of (p * 4 + q div 16), char_of (q mod 16 * 16 + r div 4)]
      | _ \<Rightarrow> None)"
| "base64url_decode (a # b # c # d # cs) =
     (case (b64url_val a, b64url_val b, b64url_val c, b64url_val d) of
        (Some p, Some q, Some r, Some s) \<Rightarrow>
          (case base64url_decode cs of
             None \<Rightarrow> None
           | Some bs \<Rightarrow>
               Some (char_of (p * 4 + q div 16) # char_of (q mod 16 * 16 + r div 4)
                       # char_of (r mod 4 * 64 + s) # bs))
      | _ \<Rightarrow> None)"

subsection \<open>SHA-256 (FIPS 180-4) and HMAC (RFC 2104)\<close>

type_synonym u32 = "32 word"

definition K256 :: "u32 list" where
  "K256 =
    [0x428A2F98, 0x71374491, 0xB5C0FBCF, 0xE9B5DBA5, 0x3956C25B, 0x59F111F1, 0x923F82A4,
     0xAB1C5ED5, 0xD807AA98, 0x12835B01, 0x243185BE, 0x550C7DC3, 0x72BE5D74, 0x80DEB1FE,
     0x9BDC06A7, 0xC19BF174, 0xE49B69C1, 0xEFBE4786, 0x0FC19DC6, 0x240CA1CC, 0x2DE92C6F,
     0x4A7484AA, 0x5CB0A9DC, 0x76F988DA, 0x983E5152, 0xA831C66D, 0xB00327C8, 0xBF597FC7,
     0xC6E00BF3, 0xD5A79147, 0x06CA6351, 0x14292967, 0x27B70A85, 0x2E1B2138, 0x4D2C6DFC,
     0x53380D13, 0x650A7354, 0x766A0ABB, 0x81C2C92E, 0x92722C85, 0xA2BFE8A1, 0xA81A664B,
     0xC24B8B70, 0xC76C51A3, 0xD192E819, 0xD6990624, 0xF40E3585, 0x106AA070, 0x19A4C116,
     0x1E376C08, 0x2748774C, 0x34B0BCB5, 0x391C0CB3, 0x4ED8AA4A, 0x5B9CCA4F, 0x682E6FF3,
     0x748F82EE, 0x78A5636F, 0x84C87814, 0x8CC70208, 0x90BEFFFA, 0xA4506CEB, 0xBEF9A3F7,
     0xC67178F2]"

definition H256 :: "u32 list" where
  "H256 =
    [0x6A09E667, 0xBB67AE85, 0x3C6EF372, 0xA54FF53A, 0x510E527F, 0x9B05688C, 0x1F83D9AB,
     0x5BE0CD19]"

definition Ch :: "u32 \<Rightarrow> u32 \<Rightarrow> u32 \<Rightarrow> u32" where
  "Ch x y z = (x AND y) XOR (NOT x AND z)"

definition Maj :: "u32 \<Rightarrow> u32 \<Rightarrow> u32 \<Rightarrow> u32" where
  "Maj x y z = (x AND y) XOR (x AND z) XOR (y AND z)"

definition Sigma0 :: "u32 \<Rightarrow> u32" where
  "Sigma0 x = word_rotr 2 x XOR word_rotr 13 x XOR word_rotr 22 x"

definition Sigma1 :: "u32 \<Rightarrow> u32" where
  "Sigma1 x = word_rotr 6 x XOR word_rotr 11 x XOR word_rotr 25 x"

definition sigma0 :: "u32 \<Rightarrow> u32" where
  "sigma0 x = word_rotr 7 x XOR word_rotr 18 x XOR drop_bit 3 x"

definition sigma1 :: "u32 \<Rightarrow> u32" where
  "sigma1 x = word_rotr 17 x XOR word_rotr 19 x XOR drop_bit 10 x"

definition be_bytes :: "nat \<Rightarrow> nat \<Rightarrow> string" where
  "be_bytes n v = map (\<lambda>i. char_of (v div 256 ^ i)) (rev [0..<n])"

definition be_word :: "string \<Rightarrow> u32" where
  "be_word bs = foldl (\<lambda>w c. push_bit 8 w OR of_nat (of_char c)) 0 bs"

definition sha256_pad :: "string \<Rightarrow> string" where
  "sha256_pad m =
     m @ [CHR 0x80] @ replicate ((64 - (length m + 9) mod 64) mod 64) (CHR 0x00)
       @ be_bytes 8 (8 * length m)"

fun chunks :: "nat \<Rightarrow> 'a list \<Rightarrow> 'a list list" where
  "chunks n [] = []"
| "chunks n (x # xs) =
     (if n = 0 then [] else take n (x # xs) # chunks n (drop n (x # xs)))"

definition schedule :: "string \<Rightarrow> u32 list" where
  "schedule block =
     fold (\<lambda>t W. W @ [sigma1 (W ! (t - 2)) + W ! (t - 7) + sigma0 (W ! (t - 15)) + W ! (t - 16)])
       [16..<64] (map be_word (chunks 4 block))"

fun sha256_round :: "u32 list \<Rightarrow> nat \<Rightarrow> u32 list \<Rightarrow> u32 list" where
  "sha256_round W t [a, b, c, d, e, f, g, h] =
     (let T1 = h + Sigma1 e + Ch e f g + K256 ! t + W ! t;
          T2 = Sigma0 a + Maj a b c
      in [T1 + T2, a, b, c, d + T1, e, f, g])"
| "sha256_round W t s = s"

definition sha256_compress :: "u32 list \<Rightarrow> string \<Rightarrow> u32 list" where
  "sha256_compress H block =
     map2 (+) H (fold (sha256_round (schedule block)) [0..<64] H)"

definition sha256 :: "string \<Rightarrow> string" where
  "sha256 m =
     concat (map (\<lambda>w. be_bytes 4 (unat w)) (foldl sha256_compress H256 (chunks 64 (sha256_pad m))))"

definition xor_byte :: "nat \<Rightarrow> char \<Rightarrow> char" where
  "xor_byte p c = char_of ((of_char c :: nat) XOR p)"

definition hmac_key_block :: "string \<Rightarrow> string" where
  "hmac_key_block key =
     (let k = (if length key > 64 then sha256 key else key)
      in k @ replicate (64 - length k) (CHR 0x00))"

definition hmac_sha256 :: "string \<Rightarrow> string \<Rightarrow> string" where
  "hmac_sha256 key m =
     (let k0 = hmac_key_block key
      in sha256 (map (xor_byte 0x5C) k0 @ sha256 (map (xor_byte 0x36) k0 @ m)))"

subsection \<open>JSON: the objects that occur in tokens\<close>

text \<open>
  Token headers and payloads are JSON objects whose members are strings or integers.
  \<open>JSON_stringify\<close> writes such an object as \<^verbatim>\<open>JSON.stringify\<close> does (no white space, the
  escapes of ECMA-262 \<open>QuoteJSONString\<close>); \<open>JSON_parse\<close> reads this fragment of JSON and
  answers \<^term>\<open>None\<close> on every other text. As in \<^verbatim>\<open>JSON.parse\<close>, a repeated key keeps its
  first position and its last value.
\<close>

datatype jvalue = JString string | JNumber int

type_synonym jobject = "(string \<times> jvalue) list"

definition dquote :: char where
  "dquote = CHR 0x22"

definition backslash :: char where
  "backslash = CHR 0x5C"

definition hex_digit :: "nat \<Rightarrow> char" where
  "hex_digit n = (if n < 10 then char_of (48 + n) else char_of (87 + n))"

definition json_escape :: "char \<Rightarrow> string" where
  "json_escape c =
     (let k = (of_char c :: nat) in
      if k = 8 then [backslash, CHR ''b'']
      else if k = 9 then [backslash, CHR ''t'']
      else if k = 10 then [backslash, CHR ''n'']
      else if k = 12 then [backslash, CHR ''f'']
      else if k = 13 then [backslash, CHR ''r'']
      else if k = 34 then [backslash, dquote]
      else if k = 92 then [backslash, backslash]
      else if k < 32 then
        [backslash, CHR ''u'', CHR ''0'', CHR ''0'', hex_digit (k div 16), hex_digit (k mod 16)]
      else [c])"

definition json_quote :: "string \<Rightarrow> string" where
  "json_quote s = dquote # concat (map json_escape s) @ [dquote]"

function digits :: "nat \<Rightarrow> string" where
  "digits n = (if n < 10 then [char_of (48 + n)] else digits (n div 10) @ [char_of (48 + n mod 10)])"
  by pat_completeness auto
termination
  by (relation "measure id") auto

definition number_to_string :: "int \<Rightarrow> string" where
  "number_to_string i = (if i < 0 then CHR ''-'' # digits (nat (- i)) else digits (nat i))"

definition json_value :: "jvalue \<Rightarrow> string" where
  "json_value v = (case v of JString s \<Rightarrow> json_quote s | JNumber i \<Rightarrow> number_to_string i)"

definition json_member :: "string \<times> jvalue \<Rightarrow> string" where
  "json_member m = json_quote (fst m) @ '':'' @ json_value (snd m)"

fun json_members :: "jobject \<Rightarrow> string" where
  "json_members [] = []"
| "json_members [m] = json_member m"
| "json_members (m # ms) = json_member m @ '','' @ json_members ms"

definition JSON_stringify :: "jobject \<Rightarrow> string" where
  "JSON_stringify obj = ''{'' @ json_members obj @ ''}''"

definition unhex :: "char \<Rightarrow> nat option" where
  "unhex c =
     (let k = (of_char c :: nat) in
      if 48 \<le> k \<and> k \<le> 57 then Some (k - 48)
      else if 97 \<le> k \<and> k \<le> 102 then Some (k - 87)
      else if 65 \<le> k \<and> k \<le> 70 then Some (k - 55)
      else None)"

definition unhex4 :: "char \<Rightarrow> char \<Rightarrow> char \<Rightarrow> char \<Rightarrow> nat option" where
  "unhex4 a b c d =
     (case (unhex a, unhex b, unhex c, unhex d) of
        (Some p, Some q, Some r, Some s) \<Rightarrow> Some (((p * 16 + q) * 16 + r) * 16 + s)
      | _ \<Rightarrow> None)"

definition utf8 :: "nat \<Rightarrow> string option" where
  "utf8 k =
     (if k < 0x80 then Some [char_of k]
      else if k < 0x800 then Some [char_of (0xC0 + k div 64), char_of (0x80 + k mod 64)]
      else if 0xD800 \<le> k \<and> k < 0xE000 then None
      else Some [char_of (0xE0 + k div 4096), char_of (0x80 + k div 64 mod 64),
                 char_of (0x80 + k mod 64)])"

definition unescape :: "char \<Rightarrow> string option" where
  "unescape e =
     (if e = CHR ''b'' then Some [CHR 0x08]
      else if e = CHR ''t'' then Some [CHR 0x09]
      else if e = CHR ''n'' then Some [CHR 0x0A]
      else if e = CHR ''f'' then Some [CHR 0x0C]
      else if e = CHR ''r'' then Some [CHR 0x0D]
      else if e = dquote \<or> e = backslash \<or> e = CHR ''/'' then Some [e]
      else None)"

definition prepend :: "string \<Rightarrow> (string \<times> string) option \<Rightarrow> (string \<times> string) option" where
  "prepend s r = map_option (\<lambda>(t, rest). (s @ t, rest)) r"

fun parse_chars :: "string \<Rightarrow> (string \<times> string) option" where
  "parse_chars [] = None"
| "parse_chars (c # cs) =
     (if c = dquote then Some ([], cs)
      else if c = backslash then
        (case cs of
           [] \<Rightarrow> None
         | e # cs' \<Rightarrow>
             if e = CHR ''u'' then
               (case cs' of
                  h1 # h2 # h3 # h4 # rest \<Rightarrow>
                    (case Option.bind (unhex4 h1 h2 h3 h4) utf8 of
                       None \<Rightarrow> None
                     | Some s \<Rightarrow> prepend s (parse_chars rest))
                | _ \<Rightarrow> None)
             else
               (case unescape e of
                  None \<Rightarrow> None
                | Some s \<Rightarrow> prepend s (parse_chars cs')))
      else if (of_char c :: nat) < 32 then None
      else prepend [c] (parse_chars cs))"

definition is_digit :: "char \<Rightarrow> bool" where
  "is_digit c = (48 \<le> (of_char c :: nat) \<and> (of_char c :: nat) \<le> 57)"

definition digits_value :: "string \<Rightarrow> nat" where
  "digits_value ds = foldl (\<lambda>a d. 10 * a + (of_char d - 48)) 0 ds"

definition parse_nat :: "string \<Rightarrow> (nat \<times> string) option" where
  "parse_nat cs =
     (let ds = takeWhile is_digit cs in
      if ds = [] \<or> (length ds > 1 \<and> hd ds = CHR ''0'') then None
      else Some (digits_value ds, dropWhile is_digit cs))"

definition parse_number :: "string \<Rightarrow> (int \<times> string) option" where
  "parse_number cs =
     (case cs of
        [] \<Rightarrow> None
      | c # cs' \<Rightarrow>
          if c = CHR ''-'' then map_option (\<lambda>(n, rest). (- int n, rest)) (parse_nat cs')
          else map_option (\<lambda>(n, rest). (int n, rest)) (parse_nat cs))"

definition parse_value :: "string \<Rightarrow> (jvalue \<times> string) option" where
  "parse_value cs =
     (case cs of
        [] \<Rightarrow> None
      | c # cs' \<Rightarrow>
          if c = dquote then map_option (\<lambda>(s, rest). (JString s, rest)) (parse_chars cs')
          else map_option (\<lambda>(i, rest). (JNumber i, rest)) (parse_number cs))"

definition parse_member :: "string \<Rightarrow> ((string \<times> jvalue) \<times> string) option" where
  "parse_member cs =
     (case cs of
        [] \<Rightarrow> None
      | c # cs' \<Rightarrow>
          if c = dquote then
            (case parse_chars cs' of
               Some (k, d # cs'') \<Rightarrow>
                 if d = CHR '':'' then map_option (\<lambda>(v, rest). ((k, v), rest)) (parse_value cs'')
                 else None
             | _ \<Rightarrow> None)
          else None)"

text \<open>
  The three parsers above return the unread rest of the input, which is shorter than
  the input; \<open>parse_members\<close> recurses on that rest.
\<close>

lemma parse_chars_shorter: "parse_chars cs = Some (s, rest) \<Longrightarrow> length rest < length cs"
proof (induction cs arbitrary: s rest rule: parse_chars.induct)
  case 1
  then show ?case by simp
next
  case (2 c cs)
  then show ?case
    by (fastforce simp: prepend_def split: if_splits list.splits option.splits)
qed

lemma parse_nat_shorter: "parse_nat cs = Some (n, rest) \<Longrightarrow> length rest < length cs"
  by (cases cs) (auto simp: parse_nat_def Let_def length_dropWhile_le less_Suc_eq_le split: if_splits)

lemma parse_member_shorter: "parse_member cs = Some (m, rest) \<Longrightarrow> length rest < length cs"
  by (auto simp: parse_member_def parse_value_def parse_number_def
      split: list.splits if_splits option.splits
      dest!: parse_chars_shorter parse_nat_shorter)

function parse_members :: "string \<Rightarrow> (jobject \<times> string) option" where
  "parse_members cs =
     (case parse_member cs of
        Some (m, d # rest) \<Rightarrow>
          if d = CHR '','' then map_option (\<lambda>(ms, r). (m # ms, r)) (parse_members rest)
          else if d = CHR ''}'' then Some ([m], rest)
          else None
      | _ \<Rightarrow> None)"
  by pat_completeness auto
termination
  by (relation "measure length") (auto dest!: parse_member_shorter)

fun obj_put :: "jobject \<Rightarrow> string \<times> jvalue \<Rightarrow> jobject" where
  "obj_put [] m = [m]"
| "obj_put (x # xs) m = (if fst x = fst m then (fst x, snd m) # xs else x # obj_put xs m)"

definition JSON_parse :: "string \<Rightarrow> jobject option" where
  "JSON_parse cs =
     (case cs of
        [] \<Rightarrow> None
      | c # cs' \<Rightarrow>
          if c \<noteq> CHR ''{'' then None
          else if cs' = ''}'' then Some []
          else (case parse_members cs' of
                  Some (ms, []) \<Rightarrow> Some (foldl obj_put [] ms)
                | _ \<Rightarrow> None))"

definition obj_get :: "jobject \<Rightarrow> string \<Rightarrow> jvalue option" where
  "obj_get obj k = map_of obj k"

subsection \<open>The jsonwebtoken package: \<open>jwt.sign\<close> and \<open>jwt.verify\<close>\<close>

text \<open>The errors the package throws; \<open>SignError\<close> is the plain \<^verbatim>\<open>Error\<close> of \<open>jwt.sign\<close>.\<close>

datatype jwt_error =
    JsonWebTokenError string
  | TokenExpiredError
  | NotBeforeError
  | SignError string

text \<open>\<^verbatim>\<open>String.prototype.split\<close> with a one-character separator: at least one segment.\<close>

fun split_on :: "char \<Rightarrow> string \<Rightarrow> string list" where
  "split_on c [] = [[]]"
| "split_on c (x # xs) =
     (if x = c then [] # split_on c xs
      else (case split_on c xs of [] \<Rightarrow> [[x]] | p # ps \<Rightarrow> (x # p) # ps))"

definition jwt_header :: jobject where
  "jwt_header = [(''alg'', JString ''HS256''), (''typ'', JString ''JWT'')]"

definition jws_sign :: "string \<Rightarrow> string \<Rightarrow> string \<Rightarrow> string" where
  "jws_sign header payload secret =
     (let securedInput = base64url header @ ''.'' @ base64url payload
      in securedInput @ ''.'' @ base64url (hmac_sha256 secret securedInput))"

text \<open>The interface \<^verbatim>\<open>TokenPayload\<close>; its member \<open>id\<close> is written \<open>id'\<close>.\<close>

record TokenPayload =
  id' :: string
  email :: string
  name :: string

definition payload_object :: "TokenPayload \<Rightarrow> jobject" where
  "payload_object payload =
     [(''id'', JString (id' payload)), (''email'', JString (email payload)),
      (''name'', JString (name payload))]"

text \<open>The registered claims \<open>jwt.sign\<close> adds for \<^verbatim>\<open>{ expiresIn: '24h' }\<close>: seconds since the epoch.\<close>

definition registered_claims :: "int \<Rightarrow> jobject" where
  "registered_claims now =
     (let timestamp = now div 1000
      in [(''iat'', JNumber timestamp), (''exp'', JNumber (timestamp + 86400))])"

text \<open>
  Modelled from the spec: \<^verbatim>\<open>jwt.sign\<close> of the jsonwebtoken package, which is not under
  \<^verbatim>\<open>src/\<close>. The spec's \<open>generate\<close> ``serializes the payload together with an issued-at
  timestamp and an expiry set to issued-at + 24 hours, then computes a cryptographic
  signature over the serialized content''. The model is the package's default for a string
  secret: a JSON Web Token (RFC 7519) in compact serialization, signed with HS256, that is
  \<open>base64url(header) . base64url(payload) . base64url(HMAC-SHA256(secret, header.payload))\<close>.
  An empty secret is refused.
\<close>

definition jwt_sign :: "TokenPayload \<Rightarrow> string \<Rightarrow> int \<Rightarrow> jwt_error + string" where
  "jwt_sign payload secretOrPrivateKey now =
     (if secretOrPrivateKey = [] then Inl (SignError ''secretOrPrivateKey must have a value'')
      else Inr (jws_sign (JSON_stringify jwt_header)
                  (JSON_stringify (payload_object payload @ registered_claims now))
                  secretOrPrivateKey))"

definition jws_decode :: "string \<Rightarrow> jobject option" where
  "jws_decode segment = Option.bind (base64url_decode segment) JSON_parse"

definition check_nbf :: "jobject \<Rightarrow> int \<Rightarrow> jwt_error option" where
  "check_nbf payload clockTimestamp =
     (case obj_get payload ''nbf'' of
        None \<Rightarrow> None
      | Some (JString _) \<Rightarrow> Some (JsonWebTokenError ''invalid nbf value'')
      | Some (JNumber nbf) \<Rightarrow> if nbf > clockTimestamp then Some NotBeforeError else None)"

definition check_exp :: "jobject \<Rightarrow> int \<Rightarrow> jwt_error option" where
  "check_exp payload clockTimestamp =
     (case obj_get payload ''exp'' of
        None \<Rightarrow> None
      | Some (JString _) \<Rightarrow> Some (JsonWebTokenError ''invalid exp value'')
      | Some (JNumber exp) \<Rightarrow> if clockTimestamp \<ge> exp then Some TokenExpiredError else None)"

text \<open>
  Modelled from the spec: \<^verbatim>\<open>jwt.verify\<close> of the jsonwebtoken package, which is not under
  \<^verbatim>\<open>src/\<close>. The spec's \<open>verify\<close> ``decodes the token, recomputes the signature over the
  claimed payload+expiry using the same secret, and accepts only if (a) the signature
  matches exactly and (b) the current time is strictly before the encoded expiry''. The
  model follows the package for HS256 tokens: three segments of the base64url alphabet,
  a header naming HS256, the signature segment compared as a string with the recomputed
  one, then the \<open>nbf\<close> and \<open>exp\<close> claims against the clock in whole seconds. Tokens signed
  with another algorithm, and headers or payloads outside the JSON fragment above, are
  answered with an error.
\<close>

definition jwt_verify :: "string \<Rightarrow> string \<Rightarrow> int \<Rightarrow> jwt_error + jobject" where
  "jwt_verify jwtString secretOrPublicKey now =
     (if jwtString = [] then Inl (JsonWebTokenError ''jwt must be provided'')
      else
        (case split_on (CHR ''.'') jwtString of
           [h, p, sg] \<Rightarrow>
             if h = [] \<or> p = [] \<or> \<not> list_all is_b64url (h @ p @ sg)
             then Inl (JsonWebTokenError ''invalid token'')
             else
               (case (jws_decode h, jws_decode p) of
                  (Some header, Some payload) \<Rightarrow>
                    if sg = [] then Inl (JsonWebTokenError ''jwt signature is required'')
                    else if secretOrPublicKey = []
                    then Inl (JsonWebTokenError ''secret or public key must be provided'')
                    else if obj_get header ''alg'' \<noteq> Some (JString ''HS256'')
                    then Inl (JsonWebTokenError ''invalid algorithm'')
                    else if sg \<noteq> base64url (hmac_sha256 secretOrPublicKey (h @ ''.'' @ p))
                    then Inl (JsonWebTokenError ''invalid signature'')
                    else
                      (case check_nbf payload (now div 1000) of
                         Some e \<Rightarrow> Inl e
                       | None \<Rightarrow>
                           (case check_exp payload (now div 1000) of
                              Some e \<Rightarrow> Inl e
                            | None \<Rightarrow> Inr payload))
                | _ \<Rightarrow> Inl (JsonWebTokenError ''invalid token''))
         | _ \<Rightarrow> Inl (JsonWebTokenError ''jwt malformed'')))"

subsection \<open>\<^verbatim>\<open>src/lib/jwt.ts\<close>\<close>

text \<open>
  \<^verbatim>\<open>const JWT_SECRET = process.env.JWT_SECRET || 'your_jwt_secret_key'\<close>: the argument is
  the environment variable as the process finds it when the module is loaded; an unset
  variable and the empty string are both falsy.
\<close>

definition JWT_SECRET :: "string option \<Rightarrow> string" where
  "JWT_SECRET env =
     (case env of
        None \<Rightarrow> ''your_jwt_secret_key''
      | Some s \<Rightarrow> if s = [] then ''your_jwt_secret_key'' else s)"

definition generateToken :: "string option \<Rightarrow> int \<Rightarrow> TokenPayload \<Rightarrow> jwt_error + string" where
  "generateToken env now payload = jwt_sign payload (JWT_SECRET env) now"

text \<open>
  \<^verbatim>\<open>return decoded as TokenPayload\<close>: the type assertion is erased at run time, so
  \<open>verifyToken\<close> returns the decoded object itself, with every member the token carries;
  \<open>null\<close> is \<open>None\<close>.
\<close>

definition verifyToken :: "string option \<Rightarrow> int \<Rightarrow> string \<Rightarrow> jobject option" where
  "verifyToken env now token =
     (case jwt_verify token (JWT_SECRET env) now of
        Inr decoded \<Rightarrow> Some decoded
      | Inl error \<Rightarrow> None)"

subsection \<open>\<^verbatim>\<open>src/lib/auth-middleware.ts\<close>\<close>

datatype body_value = Text string | Object jobject

record response =
  status :: nat
  json :: "(string \<times> body_value) list"

record credentials =
  username :: "string option"
  email_id :: "string option"
  password :: "string option"

record request =
  authorization :: "string option"
  body :: credentials
  user :: "jobject option"

datatype outcome = Responded response | Next request

definition reply :: "nat \<Rightarrow> (string \<times> body_value) list \<Rightarrow> response" where
  "reply code content = \<lparr>status = code, json = content\<rparr>"

definition error_body :: "string \<Rightarrow> (string \<times> body_value) list" where
  "error_body reason = [(''error'', Text reason)]"

text \<open>\<^verbatim>\<open>req.headers.authorization?.split(' ')[1]\<close>\<close>

definition bearer_token :: "request \<Rightarrow> string option" where
  "bearer_token req =
     (case authorization req of
        None \<Rightarrow> None
      | Some header \<Rightarrow>
          (case split_on (CHR '' '') header of
             _ # token # _ \<Rightarrow> Some token
           | _ \<Rightarrow> None))"

definition authMiddleware :: "string option \<Rightarrow> int \<Rightarrow> request \<Rightarrow> outcome" where
  "authMiddleware env now req =
     (case bearer_token req of
        None \<Rightarrow> Responded (reply 401 (error_body ''No token provided''))
      | Some token \<Rightarrow>
          if token = [] then Responded (reply 401 (error_body ''No token provided''))
          else
            (case verifyToken env now token of
               None \<Rightarrow> Responded (reply 401 (error_body ''Invalid token''))
             | Some payload \<Rightarrow> Next (req\<lparr>user := Some payload\<rparr>)))"

subsection \<open>The routes\<close>

text \<open>
  Modelled from the spec: the user store is the external Supabase service. Per the spec
  it is ``a user-record store keyed by email''; a table is the list of its rows, and
  \<open>select_eq\<close> is \<^verbatim>\<open>.select(...).eq(column, value).single()\<close>, whose data is the row when
  exactly one row matches and null otherwise.
\<close>

record row =
  row_id :: string
  row_email_id :: string
  row_username :: string
  row_password_hash :: "string option"
  subscription_tier :: nat
  created_at :: int

text \<open>
  What \<^verbatim>\<open>supabase.auth\<close> answers: an error with its message, no error and no user, or the
  user's id.
\<close>

datatype auth_reply = AuthError string | AuthNoUser | AuthUser string

text \<open>
  The store: the table of user records (\<^verbatim>\<open>user-profiles\<close>, or \<^verbatim>\<open>users\<close> in the second
  variant) and the accounts Supabase Auth holds (email and user id).
\<close>

record backend =
  profiles :: "row list"
  accounts :: "(string \<times> string) list"

text \<open>
  What the collaborators answer while one request is handled: the clock
  (\<^verbatim>\<open>Date.now()\<close>, \<^verbatim>\<open>new Date()\<close>), the fresh identifier of \<^verbatim>\<open>uuidv4()\<close>, bcrypt's \<open>hash\<close> and
  \<open>compare\<close>, whether the store reports an error on insert, and the answers of Supabase
  Auth. \<open>created_at\<close> holds the instant that the code writes as an ISO string.
\<close>

record world =
  clock :: int
  uuidv4 :: string
  bcrypt_hash :: "string \<Rightarrow> string"
  bcrypt_compare :: "string \<Rightarrow> string \<Rightarrow> bool"
  insert_error :: bool
  auth_signUp :: "string \<Rightarrow> string \<Rightarrow> auth_reply"
  auth_signIn :: "string \<Rightarrow> string \<Rightarrow> auth_reply"

definition falsy :: "string option \<Rightarrow> bool" where
  "falsy v = (v = None \<or> v = Some [])"

definition single :: "'a list \<Rightarrow> 'a option" where
  "single rows = (case rows of [r] \<Rightarrow> Some r | _ \<Rightarrow> None)"

definition select_eq :: "(row \<Rightarrow> string) \<Rightarrow> string \<Rightarrow> row list \<Rightarrow> row option" where
  "select_eq column v rows = single (filter (\<lambda>r. column r = v) rows)"

definition keyed_by_email :: "row list \<Rightarrow> bool" where
  "keyed_by_email rows = distinct (map row_email_id rows)"

definition user_object :: "string \<Rightarrow> string \<Rightarrow> string \<Rightarrow> jobject" where
  "user_object i e u = [(''id'', JString i), (''email_id'', JString e), (''username'', JString u)]"

text \<open>The variant with local password hashing (table \<^verbatim>\<open>user-profiles\<close>, bcrypt, uuid).\<close>

definition signup :: "string option \<Rightarrow> world \<Rightarrow> backend \<Rightarrow> request \<Rightarrow> response \<times> backend" where
  "signup env w db req =
     (case (username (body req), email_id (body req), password (body req)) of
        (Some u, Some e, Some p) \<Rightarrow>
          if u = [] \<or> e = [] \<or> p = []
          then (reply 400 (error_body ''Missing required fields''), db)
          else
            (case select_eq row_email_id e (profiles db) of
               Some existingUser \<Rightarrow> (reply 409 (error_body ''User already exists''), db)
             | None \<Rightarrow>
                 let hashedPassword = bcrypt_hash w p; userId = uuidv4 w in
                 if insert_error w
                 then (reply 400 (error_body ''Failed to store user data''), db)
                 else
                   let db' = db\<lparr>profiles := profiles db @
                         [\<lparr>row_id = userId, row_email_id = e, row_username = u,
                           row_password_hash = Some hashedPassword, subscription_tier = 0,
                           created_at = clock w\<rparr>]\<rparr>
                   in (case generateToken env (clock w) \<lparr>id' = userId, email = e, name = u\<rparr> of
                         Inl error \<Rightarrow> (reply 500 (error_body ''Internal server error''), db')
                       | Inr token \<Rightarrow>
                           (reply 201
                              [(''message'', Text ''User created successfully''),
                               (''token'', Text token),
                               (''user'', Object (user_object userId e u))], db')))
      | _ \<Rightarrow> (reply 400 (error_body ''Missing required fields''), db))"

definition signin :: "string option \<Rightarrow> world \<Rightarrow> backend \<Rightarrow> request \<Rightarrow> response" where
  "signin env w db req =
     (case (email_id (body req), password (body req)) of
        (Some e, Some p) \<Rightarrow>
          if e = [] \<or> p = [] then reply 400 (error_body ''Missing email or password'')
          else
            (case select_eq row_email_id e (profiles db) of
               None \<Rightarrow> reply 401 (error_body ''Invalid email or password'')
             | Some userData \<Rightarrow>
                 (case row_password_hash userData of
                    None \<Rightarrow> reply 500 (error_body ''Internal server error'')
                  | Some password_hash \<Rightarrow>
                      if \<not> bcrypt_compare w p password_hash
                      then reply 401 (error_body ''Invalid email or password'')
                      else
                        (case generateToken env (clock w)
                                \<lparr>id' = row_id userData, email = row_email_id userData,
                                 name = row_username userData\<rparr> of
                           Inl error \<Rightarrow> reply 500 (error_body ''Internal server error'')
                         | Inr token \<Rightarrow>
                             reply 200
                               [(''message'', Text ''Sign in successful''),
                                (''token'', Text token),
                                (''user'', Object (user_object (row_id userData)
                                    (row_email_id userData) (row_username userData)))])))
      | _ \<Rightarrow> reply 400 (error_body ''Missing email or password''))"

text \<open>The variant that delegates passwords to Supabase Auth (table \<^verbatim>\<open>users\<close>).\<close>

definition signup_auth :: "string option \<Rightarrow> world \<Rightarrow> backend \<Rightarrow> request \<Rightarrow> response \<times> backend" where
  "signup_auth env w db req =
     (case (username (body req), email_id (body req), password (body req)) of
        (Some u, Some e, Some p) \<Rightarrow>
          if u = [] \<or> e = [] \<or> p = []
          then (reply 400 (error_body ''Missing required fields''), db)
          else
            (case select_eq row_email_id e (profiles db) of
               Some existingUser \<Rightarrow> (reply 409 (error_body ''User already exists''), db)
             | None \<Rightarrow>
                 (case auth_signUp w e p of
                    AuthError message \<Rightarrow>
                      (reply 400 (error_body
                         (if message = [] then ''Failed to create user'' else message)), db)
                  | AuthNoUser \<Rightarrow> (reply 400 (error_body ''Failed to create user''), db)
                  | AuthUser userId \<Rightarrow>
                      let db1 = db\<lparr>accounts := accounts db @ [(e, userId)]\<rparr> in
                      if insert_error w
                      then (reply 400 (error_body ''Failed to store user data''), db1)
                      else
                        let db' = db1\<lparr>profiles := profiles db1 @
                              [\<lparr>row_id = userId, row_email_id = e, row_username = u,
                                row_password_hash = None, subscription_tier = 0,
                                created_at = clock w\<rparr>]\<rparr>
                        in (case generateToken env (clock w)
                                  \<lparr>id' = userId, email = e, name = u\<rparr> of
                              Inl error \<Rightarrow> (reply 500 (error_body ''Internal server error''), db')
                            | Inr token \<Rightarrow>
                                (reply 201
                                   [(''message'', Text ''User created successfully''),
                                    (''token'', Text token),
                                    (''user'', Object (user_object userId e u))], db'))))
      | _ \<Rightarrow> (reply 400 (error_body ''Missing required fields''), db))"

definition signin_auth :: "string option \<Rightarrow> world \<Rightarrow> backend \<Rightarrow> request \<Rightarrow> response" where
  "signin_auth env w db req =
     (case (email_id (body req), password (body req)) of
        (Some e, Some p) \<Rightarrow>
          if e = [] \<or> p = [] then reply 400 (error_body ''Missing email or password'')
          else
            (case auth_signIn w e p of
               AuthError message \<Rightarrow> reply 401 (error_body ''Invalid credentials'')
             | AuthNoUser \<Rightarrow> reply 401 (error_body ''Invalid credentials'')
             | AuthUser userId \<Rightarrow>
                 (case select_eq row_id userId (profiles db) of
                    None \<Rightarrow> reply 400 (error_body ''User not found'')
                  | Some userData \<Rightarrow>
                      (case generateToken env (clock w)
                              \<lparr>id' = row_id userData, email = row_email_id userData,
                               name = row_username userData\<rparr> of
                         Inl error \<Rightarrow> reply 500 (error_body ''Internal server error'')
                       | Inr token \<Rightarrow>
                           reply 200
                             [(''message'', Text ''Sign in successful''),
                              (''token'', Text token),
                              (''user'', Object (user_object (row_id userData)
                                  (row_email_id userData) (row_username userData)))])))
      | _ \<Rightarrow> reply 400 (error_body ''Missing email or password''))"

text \<open>The protected routes: the gate first, the handler only after \<^verbatim>\<open>next()\<close>.\<close>

definition user_member :: "request \<Rightarrow> (string \<times> body_value) list" where
  "user_member req = (case user req of None \<Rightarrow> [] | Some u \<Rightarrow> [(''user'', Object u)])"

definition verify_route :: "string option \<Rightarrow> int \<Rightarrow> request \<Rightarrow> response" where
  "verify_route env now req =
     (case authMiddleware env now req of
        Responded res \<Rightarrow> res
      | Next req' \<Rightarrow> reply 200 ((''message'', Text ''Token is valid'') # user_member req'))"

definition me_route :: "string option \<Rightarrow> int \<Rightarrow> request \<Rightarrow> response" where
  "me_route env now req =
     (case authMiddleware env now req of
        Responded res \<Rightarrow> res
      | Next req' \<Rightarrow> reply 200 (user_member req'))"

definition logout_route :: "string option \<Rightarrow> int \<Rightarrow> request \<Rightarrow> response" where
  "logout_route env now req =
     (case authMiddleware env now req of
        Responded res \<Rightarrow> res
      | Next req' \<Rightarrow> reply 200 [(''message'', Text ''Logout successful'')])"

subsection \<open>Sample data\<close>

text \<open>
  The example of the spec's end-to-end property: \<open>alice\<close> signs up with
  \<open>a@x.com\<close> and \<open>pw123456\<close> in an unconfigured process, at the instant
  \<open>1700000000123\<close> ms; \<open>alice_token\<close> is the token issued for her then.
\<close>

definition alice :: TokenPayload where
  "alice = \<lparr>id' = ''u-1'', email = ''a@x.com'', name = ''alice''\<rparr>"

definition alice_token :: string where
  "alice_token =
     jws_sign (JSON_stringify jwt_header)
       (JSON_stringify (payload_object alice @ registered_claims 1700000000123))
       ''your_jwt_secret_key''"


definition anonymous :: request where
  "anonymous = \<lparr>authorization = None,
     body = \<lparr>username = None, email_id = None, password = None\<rparr>, user = None\<rparr>"

definition quiet_world :: world where
  "quiet_world =
     \<lparr>clock = 1700000000123, uuidv4 = ''u-1'',
      bcrypt_hash = (\<lambda>p. ''$2a$10$'' @ p),
      bcrypt_compare = (\<lambda>p h. h = ''$2a$10$'' @ p),
      insert_error = False,
      auth_signUp = (\<lambda>e p. AuthUser ''u-1''),
      auth_signIn = (\<lambda>e p. AuthError ''Invalid login credentials'')\<rparr>"

definition empty_backend :: backend where
  "empty_backend = \<lparr>profiles = [], accounts = []\<rparr>"

definition alice_credentials :: request where
  "alice_credentials =
     anonymous\<lparr>body := \<lparr>username = Some ''alice'', email_id = Some ''a@x.com'',
                         password = Some ''pw123456''\<rparr>\<rparr>"

definition alice_row :: row where
  "alice_row =
     \<lparr>row_id = ''u-1'', row_email_id = ''a@x.com'', row_username = ''alice'',
      row_password_hash = Some ''$2a$10$pw123456'', subscription_tier = 0,
      created_at = 1700000000123\<rparr>"

section \<open>Properties of the encodings\<close>

subsection \<open>base64url\<close>

lemma of_char_lt: "(of_char c :: nat) < 256"
  by (cases c) (simp add: of_char_def)

lemma char_eqI: "(of_char c :: nat) = of_char d \<Longrightarrow> c = d"
  by simp

lemma b64url_val_char: "n < 64 \<Longrightarrow> b64url_val (b64url_char n) = Some n"
  unfolding b64url_val_def b64url_char_def Let_def
  by (simp; arith)

lemma is_b64url_char: "n < 64 \<Longrightarrow> is_b64url (b64url_char n)"
  by (simp add: is_b64url_def b64url_val_char)

lemma sextet_hi: "x < 256 \<Longrightarrow> x div 4 < (64::nat)"
  by (simp add: less_mult_imp_div_less)

lemma nibble_hi: "y < 256 \<Longrightarrow> y div 16 < (16::nat)"
  by (simp add: less_mult_imp_div_less)

lemma pair_hi: "z < 256 \<Longrightarrow> z div 64 < (4::nat)"
  by (simp add: less_mult_imp_div_less)

lemma sextet_mid1: "y < 256 \<Longrightarrow> x mod 4 * 16 + y div 16 < (64::nat)"
proof -
  assume "y < 256"
  then have "y div 16 < 16" by (rule nibble_hi)
  moreover have "x mod 4 < 4" by simp
  ultimately show ?thesis by linarith
qed

lemma sextet_mid2: "z < 256 \<Longrightarrow> y mod 16 * 4 + z div 64 < (64::nat)"
proof -
  assume "z < 256"
  then have "z div 64 < 4" by (rule pair_hi)
  moreover have "y mod 16 < 16" by simp
  ultimately show ?thesis by linarith
qed

lemma sextet_pad1: "x mod 4 * 16 < (64::nat)"
proof -
  have "x mod 4 < 4" by simp
  then show ?thesis by linarith
qed

lemma sextet_pad2: "y mod 16 * 4 < (64::nat)"
proof -
  have "y mod 16 < 16" by simp
  then show ?thesis by linarith
qed

lemmas sextet_bounds = sextet_hi sextet_mid1 sextet_mid2 sextet_pad1 sextet_pad2

lemma base64url_decode_encode: "base64url_decode (base64url bs) = Some bs"
proof (induction bs rule: base64url.induct)
  case 1
  show ?case by simp
next
  case (2 a)
  show ?case
    by (simp add: Let_def b64url_val_char sextet_bounds of_char_lt)
next
  case (3 a b)
  have "(of_char b :: nat) div 16 < 16" by (rule nibble_hi [OF of_char_lt])
  then show ?case
    by (simp add: Let_def b64url_val_char sextet_bounds of_char_lt)
next
  case (4 a b c bs)
  have ih: "base64url_decode (base64url bs) = Some bs"
    by (rule 4 [OF refl refl refl])
  have "(of_char b :: nat) div 16 < 16" by (rule nibble_hi [OF of_char_lt])
  moreover have "(of_char c :: nat) div 64 < 4" by (rule pair_hi [OF of_char_lt])
  ultimately show ?case
    by (simp add: Let_def b64url_val_char sextet_bounds of_char_lt ih)
qed

lemma base64url_alphabet: "c \<in> set (base64url bs) \<Longrightarrow> is_b64url c"
proof (induction bs arbitrary: c rule: base64url.induct)
  case 1
  then show ?case by simp
next
  case (2 a)
  then show ?case
    by (auto simp: Let_def is_b64url_char sextet_bounds of_char_lt)
next
  case (3 a b)
  then show ?case
    by (auto simp: Let_def is_b64url_char sextet_bounds of_char_lt)
next
  case (4 a b c bs)
  then show ?case
    by (auto simp: Let_def is_b64url_char sextet_bounds of_char_lt)
qed

lemma base64url_nonempty: "bs \<noteq> [] \<Longrightarrow> base64url bs \<noteq> []"
  by (induction bs rule: base64url.induct) (simp_all add: Let_def)

lemma is_b64url_not_dot: "is_b64url c \<Longrightarrow> c \<noteq> CHR ''.''"
  by (auto simp: is_b64url_def b64url_val_def)

lemma is_b64url_not_space: "is_b64url c \<Longrightarrow> c \<noteq> CHR '' ''"
  by (auto simp: is_b64url_def b64url_val_def)

subsection \<open>JSON: parsing what was written\<close>

declare digits.simps [simp del]
declare parse_members.simps [simp del]

lemma unhex_hex_digit: "n < 16 \<Longrightarrow> unhex (hex_digit n) = Some n"
  unfolding unhex_def hex_digit_def Let_def
  by (simp; arith)

lemma unhex_zero: "unhex (CHR ''0'') = Some 0"
  by (simp add: unhex_def)

lemma unhex4_control:
  assumes "k < 32"
  shows "unhex4 (CHR ''0'') (CHR ''0'') (hex_digit (k div 16)) (hex_digit (k mod 16)) = Some k"
proof -
  from assms have "k div 16 < 16" by (simp add: less_mult_imp_div_less)
  then have "unhex (hex_digit (k div 16)) = Some (k div 16)" by (rule unhex_hex_digit)
  moreover have "unhex (hex_digit (k mod 16)) = Some (k mod 16)" by (simp add: unhex_hex_digit)
  ultimately show ?thesis by (simp add: unhex4_def unhex_zero)
qed

lemma prepend_Some: "prepend s (Some (t, rest)) = Some (s @ t, rest)"
  by (simp add: prepend_def)

lemma parse_chars_escape: "parse_chars (json_escape c @ cs) = prepend [c] (parse_chars cs)"
proof -
  define k where "k = (of_char c :: nat)"
  have c: "c = char_of k" by (simp add: k_def)
  consider "k = 8" | "k = 9" | "k = 10" | "k = 12" | "k = 13" | "k = 34" | "k = 92"
    | "k < 32" "k \<notin> {8, 9, 10, 12, 13}" | "32 \<le> k" "k \<noteq> 34" "k \<noteq> 92"
    by fastforce
  then show ?thesis
  proof cases
    case 1
    then have "c = CHR 0x08" by (intro char_eqI) (simp add: k_def)
    then show ?thesis
      by (simp add: json_escape_def unescape_def dquote_def backslash_def)
  next
    case 2
    then have "c = CHR 0x09" by (intro char_eqI) (simp add: k_def)
    then show ?thesis
      by (simp add: json_escape_def unescape_def dquote_def backslash_def)
  next
    case 3
    then have "c = CHR 0x0A" by (intro char_eqI) (simp add: k_def)
    then show ?thesis
      by (simp add: json_escape_def unescape_def dquote_def backslash_def)
  next
    case 4
    then have "c = CHR 0x0C" by (intro char_eqI) (simp add: k_def)
    then show ?thesis
      by (simp add: json_escape_def unescape_def dquote_def backslash_def)
  next
    case 5
    then have "c = CHR 0x0D" by (intro char_eqI) (simp add: k_def)
    then show ?thesis
      by (simp add: json_escape_def unescape_def dquote_def backslash_def)
  next
    case 6
    then have "c = CHR 0x22" by (intro char_eqI) (simp add: k_def)
    then show ?thesis
      by (simp add: json_escape_def unescape_def dquote_def backslash_def)
  next
    case 7
    then have "c = CHR 0x5C" by (intro char_eqI) (simp add: k_def)
    then show ?thesis
      by (simp add: json_escape_def unescape_def dquote_def backslash_def)
  next
    case 8
    then have esc: "json_escape c = [backslash, CHR ''u'', CHR ''0'', CHR ''0'',
        hex_digit (k div 16), hex_digit (k mod 16)]"
      by (auto simp: json_escape_def k_def [symmetric])
    have "c \<noteq> dquote" "c \<noteq> backslash"
      using 8 by (auto simp: k_def dquote_def backslash_def)
    moreover have "Option.bind (unhex4 (CHR ''0'') (CHR ''0'') (hex_digit (k div 16))
        (hex_digit (k mod 16))) utf8 = Some [c]"
      using 8 by (simp add: unhex4_control utf8_def c)
    ultimately show ?thesis
      by (simp add: esc backslash_def dquote_def)
  next
    case 9
    then have esc: "json_escape c = [c]"
      by (auto simp: json_escape_def k_def [symmetric])
    have "c \<noteq> dquote" "c \<noteq> backslash"
      using 9 by (auto simp: k_def dquote_def backslash_def)
    then show ?thesis
      using 9 by (simp add: esc k_def [symmetric])
  qed
qed

lemma parse_chars_quoted:
  "parse_chars (concat (map json_escape s) @ dquote # rest) = Some (s, rest)"
  by (induction s) (simp_all add: parse_chars_escape prepend_Some)

lemma is_digit_char: "d < 10 \<Longrightarrow> is_digit (char_of (48 + d :: nat))"
  by (simp add: is_digit_def)

lemma digits_all: "c \<in> set (digits n) \<Longrightarrow> is_digit c"
proof (induction n arbitrary: c rule: digits.induct)
  case (1 n)
  show ?case
  proof (cases "n < 10")
    case True
    with 1(2) show ?thesis by (simp add: digits.simps [of n] is_digit_char)
  next
    case False
    with 1 show ?thesis by (auto simp: digits.simps [of n] is_digit_char)
  qed
qed

lemma digits_nonempty: "digits n \<noteq> []"
  by (simp add: digits.simps [of n])

lemma digits_long: "1 < length (digits n) \<Longrightarrow> 10 \<le> n"
  by (rule ccontr) (simp add: digits.simps [of n])

lemma digits_hd: "0 < n \<Longrightarrow> hd (digits n) \<noteq> CHR ''0''"
proof (induction n rule: digits.induct)
  case (1 n)
  show ?case
  proof (cases "n < 10")
    case True
    with 1(2) have "char_of (48 + n) \<noteq> CHR ''0''"
      by (auto dest!: arg_cong [where f = "of_char :: char \<Rightarrow> nat"])
    with True show ?thesis by (simp add: digits.simps [of n])
  next
    case False
    then have "0 < n div 10" by simp
    with 1(1) False have "hd (digits (n div 10)) \<noteq> CHR ''0''" by simp
    with False show ?thesis by (simp add: digits.simps [of n] digits_nonempty)
  qed
qed

lemma digits_value_snoc: "digits_value (ds @ [d]) = 10 * digits_value ds + (of_char d - 48)"
  by (simp add: digits_value_def)

lemma digits_value_digits: "digits_value (digits n) = n"
proof (induction n rule: digits.induct)
  case (1 n)
  show ?case
  proof (cases "n < 10")
    case True
    then show ?thesis by (simp add: digits.simps [of n] digits_value_def)
  next
    case False
    with 1 have "digits_value (digits (n div 10)) = n div 10" by simp
    with False show ?thesis by (simp add: digits.simps [of n] digits_value_snoc)
  qed
qed

lemma parse_nat_digits:
  assumes "\<not> is_digit d"
  shows "parse_nat (digits n @ d # rest) = Some (n, d # rest)"
proof -
  have tw: "takeWhile is_digit (digits n @ d # rest) = digits n"
    using assms by (simp add: takeWhile_append2 digits_all)
  have dw: "dropWhile is_digit (digits n @ d # rest) = d # rest"
    using assms by (simp add: dropWhile_append2 digits_all)
  have "\<not> (1 < length (digits n) \<and> hd (digits n) = CHR ''0'')"
    using digits_long [of n] digits_hd [of n] by auto
  then show ?thesis
    by (simp add: parse_nat_def Let_def tw dw digits_nonempty digits_value_digits
        del: One_nat_def)
qed

lemma digits_hd_digit: "is_digit (hd (digits n))"
  by (rule digits_all [of _ n]) (simp add: digits_nonempty)

lemma parse_number_string:
  assumes "\<not> is_digit d"
  shows "parse_number (number_to_string i @ d # rest) = Some (i, d # rest)"
proof (cases "i < 0")
  case True
  then show ?thesis
    using parse_nat_digits [OF assms, of "nat (- i)" rest]
    by (simp add: parse_number_def number_to_string_def)
next
  case False
  obtain c cs where cs: "digits (nat i) = c # cs"
    using digits_nonempty [of "nat i"] by (cases "digits (nat i)") auto
  have "is_digit c" using digits_hd_digit [of "nat i"] by (simp add: cs)
  then have "c \<noteq> CHR ''-''" by (auto simp: is_digit_def)
  then show ?thesis
    using False parse_nat_digits [OF assms, of "nat i" rest]
    by (simp add: parse_number_def number_to_string_def cs)
qed

lemma number_to_string_hd: "\<exists>c cs. number_to_string i = c # cs \<and> c \<noteq> dquote"
proof (cases "i < 0")
  case True
  then show ?thesis by (simp add: number_to_string_def dquote_def)
next
  case False
  obtain c cs where cs: "digits (nat i) = c # cs"
    using digits_nonempty [of "nat i"] by (cases "digits (nat i)") auto
  have "is_digit c" using digits_hd_digit [of "nat i"] by (simp add: cs)
  then have "c \<noteq> dquote" by (auto simp: is_digit_def dquote_def)
  with False cs show ?thesis by (simp add: number_to_string_def)
qed

lemma parse_value_json:
  assumes "\<not> is_digit d"
  shows "parse_value (json_value v @ d # rest) = Some (v, d # rest)"
proof (cases v)
  case (JString s)
  then show ?thesis
    by (simp add: parse_value_def json_value_def json_quote_def parse_chars_quoted)
next
  case (JNumber i)
  obtain c cs where "number_to_string i = c # cs" "c \<noteq> dquote"
    using number_to_string_hd by blast
  then show ?thesis
    using parse_number_string [OF assms, of i rest] JNumber
    by (simp add: parse_value_def json_value_def)
qed

lemma parse_member_json:
  assumes "\<not> is_digit d"
  shows "parse_member (json_member m @ d # rest) = Some (m, d # rest)"
  using parse_value_json [OF assms, of "snd m" rest]
  by (simp add: parse_member_def json_member_def json_quote_def parse_chars_quoted)

lemma parse_members_json:
  "ms \<noteq> [] \<Longrightarrow> parse_members (json_members ms @ CHR ''}'' # rest) = Some (ms, rest)"
proof (induction ms rule: json_members.induct)
  case 1
  then show ?case by simp
next
  case (2 m)
  have "\<not> is_digit (CHR ''}'')" by (simp add: is_digit_def)
  from parse_member_json [OF this, of m rest] show ?case
    by (simp add: parse_members.simps [of "json_member m @ CHR ''}'' # rest"])
next
  case (3 m m' ms)
  have "\<not> is_digit (CHR '','')" by (simp add: is_digit_def)
  from parse_member_json [OF this, of m "json_members (m' # ms) @ CHR ''}'' # rest"] 3
  show ?case
    by (simp add: parse_members.simps
          [of "json_member m @ CHR '','' # json_members (m' # ms) @ CHR ''}'' # rest"])
qed

lemma obj_put_fresh: "fst m \<notin> fst ` set obj \<Longrightarrow> obj_put obj m = obj @ [m]"
  by (induction obj) auto

lemma foldl_obj_put: "distinct (map fst (acc @ ms)) \<Longrightarrow> foldl obj_put acc ms = acc @ ms"
proof (induction ms arbitrary: acc)
  case Nil
  then show ?case by simp
next
  case (Cons m ms)
  from Cons.prems have "fst m \<notin> fst ` set acc" by auto
  then have "obj_put acc m = acc @ [m]" by (rule obj_put_fresh)
  moreover from Cons.prems have "distinct (map fst ((acc @ [m]) @ ms))" by simp
  ultimately show ?case using Cons.IH [of "acc @ [m]"] by simp
qed

lemma json_members_hd: "ms \<noteq> [] \<Longrightarrow> \<exists>cs. json_members ms = dquote # cs"
  by (induction ms rule: json_members.induct) (simp_all add: json_member_def json_quote_def)

lemma JSON_parse_stringify:
  "distinct (map fst obj) \<Longrightarrow> JSON_parse (JSON_stringify obj) = Some obj"
proof (cases "obj = []")
  case True
  then show ?thesis by (simp add: JSON_parse_def JSON_stringify_def)
next
  case False
  assume d: "distinct (map fst obj)"
  from False obtain cs where cs: "json_members obj = dquote # cs"
    using json_members_hd by blast
  then have "json_members obj @ ''}'' \<noteq> ''}''" by (simp add: dquote_def)
  moreover have "parse_members (json_members obj @ ''}'') = Some (obj, [])"
    using parse_members_json [OF False, of "[]"] by simp
  moreover have "foldl obj_put [] obj = obj"
    using foldl_obj_put [of "[]" obj] d by simp
  ultimately show ?thesis by (simp add: JSON_parse_def JSON_stringify_def)
qed

lemma JSON_stringify_nonempty: "JSON_stringify obj \<noteq> []"
  by (simp add: JSON_stringify_def)

subsection \<open>SHA-256 digests are 32 bytes long\<close>

lemma length_sha256_round: "length (sha256_round W t s) = length s"
  by (induction W t s rule: sha256_round.induct) (simp_all add: Let_def)

lemma length_fold_round: "length (fold (sha256_round W) ts s) = length s"
  by (induction ts arbitrary: s) (simp_all add: length_sha256_round)

lemma length_sha256_compress: "length (sha256_compress H block) = length H"
  by (simp add: sha256_compress_def length_fold_round)

lemma length_foldl_compress: "length (foldl sha256_compress H blocks) = length H"
  by (induction blocks arbitrary: H) (simp_all add: length_sha256_compress)

lemma length_be_bytes: "length (be_bytes n v) = n"
  by (simp add: be_bytes_def)

lemma length_concat_be_bytes: "length (concat (map (\<lambda>w. be_bytes 4 (unat w)) ws)) = 4 * length ws"
  by (induction ws) (simp_all add: length_be_bytes)

lemma length_sha256: "length (sha256 m) = 32"
  by (simp add: sha256_def length_concat_be_bytes length_foldl_compress H256_def)

lemma hmac_sha256_nonempty: "hmac_sha256 key m \<noteq> []"
proof -
  have "length (hmac_sha256 key m) = 32"
    by (simp add: hmac_sha256_def Let_def length_sha256)
  then show ?thesis by auto
qed


subsection \<open>Splitting at a separator\<close>

lemma split_on_nonempty: "split_on c xs \<noteq> []"
  by (induction xs) (auto split: list.splits)

lemma split_on_none: "c \<notin> set xs \<Longrightarrow> split_on c xs = [xs]"
  by (induction xs) auto

lemma split_on_append: "c \<notin> set xs \<Longrightarrow> split_on c (xs @ c # ys) = xs # split_on c ys"
  by (induction xs) auto

lemma split_on_three:
  assumes "c \<notin> set h" "c \<notin> set p" "c \<notin> set sg"
  shows "split_on c (h @ [c] @ p @ [c] @ sg) = [h, p, sg]"
  using assms by (simp add: split_on_append split_on_none)

lemma split_on_Cons:
  "split_on c xs = p # ps \<Longrightarrow>
   c \<notin> set p \<and> (if ps = [] then xs = p else \<exists>rest. xs = p @ c # rest \<and> split_on c rest = ps)"
proof (induction xs arbitrary: p ps)
  case Nil
  then show ?case by simp
next
  case (Cons x xs)
  show ?case
  proof (cases "x = c")
    case True
    with Cons.prems show ?thesis by (auto simp: split_on_nonempty)
  next
    case False
    with Cons.prems obtain p' where p': "p = x # p'" "split_on c xs = p' # ps"
      using split_on_nonempty [of c xs] by (auto split: list.splits)
    from Cons.IH [OF p'(2)] False p'(1) show ?thesis by auto
  qed
qed

lemma split_on_join:
  assumes "split_on c xs = [h, p, sg]"
  shows "xs = h @ [c] @ p @ [c] @ sg"
proof -
  from split_on_Cons [OF assms] obtain r1 where r1: "xs = h @ c # r1" "split_on c r1 = [p, sg]"
    by auto
  from split_on_Cons [OF r1(2)] obtain r2 where r2: "r1 = p @ c # r2" "split_on c r2 = [sg]"
    by auto
  from split_on_Cons [OF r2(2)] have "r2 = sg" by simp
  with r1 r2 show ?thesis by simp
qed

lemma base64url_no_dot: "CHR ''.'' \<notin> set (base64url bs)"
  using base64url_alphabet is_b64url_not_dot by blast

lemma base64url_no_space: "CHR '' '' \<notin> set (base64url bs)"
  using base64url_alphabet is_b64url_not_space by blast

lemma jws_decode_encode:
  "distinct (map fst obj) \<Longrightarrow> jws_decode (base64url (JSON_stringify obj)) = Some obj"
  by (simp add: jws_decode_def base64url_decode_encode JSON_parse_stringify)

section \<open>Signing and verifying\<close>

lemma jwt_verify_signed:
  assumes hd: "distinct (map fst header)" and pd: "distinct (map fst payload)"
    and alg: "obj_get header ''alg'' = Some (JString ''HS256'')"
  defines "input \<equiv> base64url (JSON_stringify header) @ ''.'' @ base64url (JSON_stringify payload)"
  shows "jwt_verify (jws_sign (JSON_stringify header) (JSON_stringify payload) secret) secret' now =
     (if secret' = [] then Inl (JsonWebTokenError ''secret or public key must be provided'')
      else if base64url (hmac_sha256 secret input) \<noteq> base64url (hmac_sha256 secret' input)
      then Inl (JsonWebTokenError ''invalid signature'')
      else (case check_nbf payload (now div 1000) of
              Some e \<Rightarrow> Inl e
            | None \<Rightarrow> (case check_exp payload (now div 1000) of
                         Some e \<Rightarrow> Inl e
                       | None \<Rightarrow> Inr payload)))"
proof -
  define h where "h = base64url (JSON_stringify header)"
  define p where "p = base64url (JSON_stringify payload)"
  define sg where "sg = base64url (hmac_sha256 secret (h @ ''.'' @ p))"
  have tok: "jws_sign (JSON_stringify header) (JSON_stringify payload) secret
      = h @ [CHR ''.''] @ p @ [CHR ''.''] @ sg"
    by (simp add: jws_sign_def Let_def h_def p_def sg_def)
  have split: "split_on (CHR ''.'') (h @ [CHR ''.''] @ p @ [CHR ''.''] @ sg) = [h, p, sg]"
    by (rule split_on_three) (simp_all add: h_def p_def sg_def base64url_no_dot)
  have ne: "h \<noteq> []" "p \<noteq> []" "sg \<noteq> []"
    by (simp_all add: h_def p_def sg_def base64url_nonempty JSON_stringify_nonempty
        hmac_sha256_nonempty)
  have alpha: "list_all is_b64url (h @ p @ sg)"
    by (auto simp: list_all_iff h_def p_def sg_def base64url_alphabet)
  have dec: "jws_decode h = Some header" "jws_decode p = Some payload"
    by (simp_all add: h_def p_def jws_decode_encode hd pd)
  have inp: "input = h @ ''.'' @ p"
    by (simp add: input_def h_def p_def)
  show ?thesis
    unfolding tok jwt_verify_def split inp
    using ne alpha dec alg
    by (simp add: sg_def)
qed

lemma JWT_SECRET_nonempty: "JWT_SECRET env \<noteq> []"
  by (simp add: JWT_SECRET_def split: option.split)

lemma generateToken_Inr:
  "generateToken env t P =
     Inr (jws_sign (JSON_stringify jwt_header)
            (JSON_stringify (payload_object P @ registered_claims t)) (JWT_SECRET env))"
  by (simp add: generateToken_def jwt_sign_def JWT_SECRET_nonempty)

lemma claims_distinct: "distinct (map fst (payload_object P @ registered_claims t))"
  by (simp add: payload_object_def registered_claims_def Let_def)

lemma claims_nbf: "check_nbf (payload_object P @ registered_claims t) c = None"
  by (simp add: check_nbf_def obj_get_def payload_object_def registered_claims_def Let_def)

lemma claims_exp:
  "check_exp (payload_object P @ registered_claims t) c =
     (if t div 1000 + 86400 \<le> c then Some TokenExpiredError else None)"
  by (simp add: check_exp_def obj_get_def payload_object_def registered_claims_def Let_def)

lemma jwt_verify_generated:
  assumes "generateToken env t P = Inr token"
  shows "jwt_verify token (JWT_SECRET env) now =
     (if now div 1000 < t div 1000 + 86400 then Inr (payload_object P @ registered_claims t)
      else Inl TokenExpiredError)"
proof -
  from assms have tok: "token = jws_sign (JSON_stringify jwt_header)
      (JSON_stringify (payload_object P @ registered_claims t)) (JWT_SECRET env)"
    by (simp add: generateToken_Inr)
  have "distinct (map fst jwt_header)" "obj_get jwt_header ''alg'' = Some (JString ''HS256'')"
    by (simp_all add: jwt_header_def obj_get_def)
  from jwt_verify_signed [OF this(1) claims_distinct this(2), of P t "JWT_SECRET env" "JWT_SECRET env" now]
  show ?thesis
    by (simp add: tok JWT_SECRET_nonempty claims_nbf claims_exp)
qed

lemma verifyToken_generated:
  assumes "generateToken env t P = Inr token"
  shows "verifyToken env now token =
     (if now div 1000 < t div 1000 + 86400 then Some (payload_object P @ registered_claims t)
      else None)"
  by (simp add: verifyToken_def jwt_verify_generated [OF assms])

lemma claims_members:
  "payload_object P @ registered_claims t
     = [(''id'', JString (id' P)), (''email'', JString (email P)), (''name'', JString (name P)),
        (''iat'', JNumber (t div 1000)), (''exp'', JNumber (t div 1000 + 86400))]"
  by (simp add: payload_object_def registered_claims_def Let_def)







lemma alice_payload_segment:
  "base64url (JSON_stringify (payload_object alice @ registered_claims 1700000000123))
     = ''eyJpZCI6InUtMSIsImVtYWlsIjoiYUB4LmNvbSIsIm5hbWUiOiJhbGljZSIsImlhdCI6MTcwMDAwMDAwMCwiZXhwIjoxNzAwMDg2NDAwfQ''"
  by (simp add: JSON_stringify_def payload_object_def registered_claims_def alice_def
      json_member_def json_value_def number_to_string_def digits.simps json_quote_def
      json_escape_def dquote_def backslash_def b64url_char_def Let_def char_of_eq_iff)


lemma generateToken_alice: "generateToken None 1700000000123 alice = Inr alice_token"
  by (simp add: generateToken_Inr alice_token_def JWT_SECRET_def)


lemma jws_sign_no_space: "CHR '' '' \<notin> set (jws_sign header payload secret)"
  by (simp add: jws_sign_def Let_def base64url_no_space)

lemma jws_sign_nonempty: "jws_sign header payload secret \<noteq> []"
  by (simp add: jws_sign_def Let_def)

lemma generated_no_space: "generateToken env t P = Inr token \<Longrightarrow> CHR '' '' \<notin> set token"
  by (auto simp: generateToken_Inr jws_sign_no_space)

lemma generated_nonempty: "generateToken env t P = Inr token \<Longrightarrow> token \<noteq> []"
  by (auto simp: generateToken_Inr jws_sign_nonempty)

lemma seconds_before: "(now div 1000 < (c::int)) = (now < c * 1000)"
proof -
  define q r where "q = now div 1000" and "r = now mod 1000"
  have "now = q * 1000 + r" "0 \<le> r" "r < 1000"
    by (simp_all add: q_def r_def)
  then show ?thesis
    unfolding q_def [symmetric] by linarith
qed

lemma claims_iat_exp:
  "obj_get (payload_object P @ registered_claims t) ''iat'' = Some (JNumber (t div 1000))"
  "obj_get (payload_object P @ registered_claims t) ''exp'' = Some (JNumber (t div 1000 + 86400))"
  by (simp_all add: obj_get_def payload_object_def registered_claims_def Let_def)


section \<open>The token service\<close>

text \<open>
  Claim C1. The spec has the round trip return a payload equal to \<open>P\<close> at any time less
  than 24 hours after issuance. The code returns more than \<open>P\<close> and counts the 24 hours
  from the whole second of issuance, and the claim is proved as amended: for every
  TokenPayload \<open>P\<close>, verifying the token that \<open>generateToken\<close> produced for \<open>P\<close> at the
  instant \<open>t\<close>, in a process with the same secret and at a current time \<open>now\<close> (both in
  milliseconds) with \<open>now div 1000 < t div 1000 + 86400\<close>, returns the object made of
  \<open>P\<close>'s members \<open>id\<close>, \<open>email\<close> and \<open>name\<close>, unchanged, followed by \<open>iat = t div 1000\<close>
  and \<open>exp = iat + 86400\<close>.
\<close>

theorem verify_generate_roundtrip:
  assumes "generateToken env t P = Inr token"
    and "now div 1000 < t div 1000 + 86400"
  shows "verifyToken env now token
     = Some [(''id'', JString (id' P)), (''email'', JString (email P)),
             (''name'', JString (name P)), (''iat'', JNumber (t div 1000)),
             (''exp'', JNumber (t div 1000 + 86400))]"
  using assms by (simp add: verifyToken_generated claims_members)

theorem verify_generate_roundtrip_witness:
  "generateToken None 1700000000123 alice = Inr alice_token
   \<and> verifyToken None 1700086399999 alice_token
       = Some [(''id'', JString ''u-1''), (''email'', JString ''a@x.com''),
               (''name'', JString ''alice''), (''iat'', JNumber 1700000000),
               (''exp'', JNumber 1700086400)]"
proof -
  have "(1700086399999::int) div 1000 < 1700000000123 div 1000 + 86400" by simp
  from verify_generate_roundtrip [OF generateToken_alice this] generateToken_alice
  show ?thesis
    by (simp add: alice_def)
qed

text \<open>
  Claim C1 as the spec states it fails for the token issued to \<open>alice\<close> at
  \<open>1700000000123\<close> ms. Verified at that instant, the result is the object of five
  members, not the three of \<open>P\<close>. Verified at \<open>1700086400000\<close> ms, which is \<open>86399877\<close> ms
  after issuance and so less than 24 hours, the result is \<open>null\<close>: the expiry
  \<open>1700086400\<close> is counted from the whole second of issuance.
\<close>

theorem roundtrip_counterexample:
  "generateToken None 1700000000123 alice = Inr alice_token
   \<and> verifyToken None 1700000000123 alice_token
       = Some [(''id'', JString ''u-1''), (''email'', JString ''a@x.com''),
               (''name'', JString ''alice''), (''iat'', JNumber 1700000000),
               (''exp'', JNumber 1700086400)]
   \<and> verifyToken None 1700000000123 alice_token
       \<noteq> Some [(''id'', JString ''u-1''), (''email'', JString ''a@x.com''),
               (''name'', JString ''alice'')]
   \<and> (1700086400000::int) - 1700000000123 < 24 * 60 * 60 * 1000
   \<and> verifyToken None 1700086400000 alice_token = None"
proof -
  have 1: "verifyToken None 1700000000123 alice_token
       = Some [(''id'', JString ''u-1''), (''email'', JString ''a@x.com''),
               (''name'', JString ''alice''), (''iat'', JNumber 1700000000),
               (''exp'', JNumber 1700086400)]"
    by (simp add: verifyToken_generated [OF generateToken_alice] claims_members alice_def)
  have 2: "verifyToken None 1700086400000 alice_token = None"
    by (simp add: verifyToken_generated [OF generateToken_alice])
  from 1 2 generateToken_alice show ?thesis by simp
qed




text \<open>
  Claim C4. A token generated with issued-at timestamp \<open>t0\<close> (the \<open>iat\<close> claim, in
  seconds) carries the expiry \<open>t0 + 86400\<close>. \<open>verifyToken\<close> succeeds at every current
  time in \<open>[t0, t0 + 24h)\<close> and fails at every current time from \<open>t0 + 24h\<close> on (the clock
  in milliseconds): it accepts only strictly before the encoded expiry.
\<close>

theorem token_expiry_boundary:
  assumes "generateToken env t P = Inr token" and "t0 = t div 1000"
  shows "obj_get (payload_object P @ registered_claims t) ''iat'' = Some (JNumber t0)
    \<and> obj_get (payload_object P @ registered_claims t) ''exp'' = Some (JNumber (t0 + 86400))
    \<and> (t0 * 1000 \<le> now \<and> now < (t0 + 86400) * 1000 \<longrightarrow>
         verifyToken env now token = Some (payload_object P @ registered_claims t))
    \<and> ((t0 + 86400) * 1000 \<le> now \<longrightarrow> verifyToken env now token = None)
    \<and> (verifyToken env now token \<noteq> None \<longrightarrow> now < (t0 + 86400) * 1000)"
proof -
  have v: "verifyToken env now token =
      (if now < (t0 + 86400) * 1000 then Some (payload_object P @ registered_claims t) else None)"
    using verifyToken_generated [OF assms(1), of now]
    by (simp only: assms(2) seconds_before)
  show ?thesis
    unfolding v using claims_iat_exp [of P t] by (simp add: assms(2))
qed

theorem token_expiry_boundary_witness:
  "verifyToken None 1700000000000 alice_token
       = Some (payload_object alice @ registered_claims 1700000000123)
   \<and> verifyToken None 1700086399999 alice_token
       = Some (payload_object alice @ registered_claims 1700000000123)
   \<and> verifyToken None 1700086400000 alice_token = None"
proof -
  have t0: "(1700000000::int) = 1700000000123 div 1000" by simp
  have 1: "verifyToken None 1700000000000 alice_token
       = Some (payload_object alice @ registered_claims 1700000000123)"
    using token_expiry_boundary [OF generateToken_alice t0, of 1700000000000] by simp
  have 2: "verifyToken None 1700086399999 alice_token
       = Some (payload_object alice @ registered_claims 1700000000123)"
    using token_expiry_boundary [OF generateToken_alice t0, of 1700086399999] by simp
  have 3: "verifyToken None 1700086400000 alice_token = None"
    using token_expiry_boundary [OF generateToken_alice t0, of 1700086400000] by simp
  from 1 2 3 show ?thesis by simp
qed

text \<open>
  Claim C5. The spec has a missing signing secret stop the service at startup. The code
  does otherwise, and the claim is proved as amended: a missing or empty \<open>JWT_SECRET\<close>
  does not stop the service; the module falls back to the constant
  \<open>'your_jwt_secret_key'\<close> and \<open>generateToken\<close> signs with it. A non-empty \<open>JWT_SECRET\<close>
  is used as supplied.
\<close>

theorem secret_fallback:
  "(falsy env \<longrightarrow> JWT_SECRET env = ''your_jwt_secret_key'')
   \<and> (\<forall>s. env = Some s \<and> s \<noteq> [] \<longrightarrow> JWT_SECRET env = s)
   \<and> generateToken env t P =
       Inr (jws_sign (JSON_stringify jwt_header)
              (JSON_stringify (payload_object P @ registered_claims t)) (JWT_SECRET env))"
  by (auto simp: falsy_def JWT_SECRET_def generateToken_Inr)

theorem secret_fallback_witness:
  "JWT_SECRET (Some []) = ''your_jwt_secret_key''
   \<and> JWT_SECRET (Some ''s3cret'') = ''s3cret''
   \<and> generateToken (Some []) 1700000000123 alice = Inr alice_token"
proof -
  have "falsy (Some [])" by (simp add: falsy_def)
  with secret_fallback [of "Some []" 1700000000123 alice]
  have 1: "JWT_SECRET (Some []) = ''your_jwt_secret_key''"
    and 3: "generateToken (Some []) 1700000000123 alice = Inr alice_token"
    by (simp_all add: alice_token_def)
  from secret_fallback [of "Some ''s3cret''" 0 alice]
  have 2: "JWT_SECRET (Some ''s3cret'') = ''s3cret''" by simp
  from 1 2 3 show ?thesis by simp
qed

text \<open>
  Claim C5 as the spec states it fails in the unconfigured process: there the secret is
  the default, \<open>generateToken\<close> returns a token, and that token verifies under the
  default secret.
\<close>

theorem missing_secret_counterexample:
  "JWT_SECRET None = ''your_jwt_secret_key''
   \<and> generateToken None 1700000000123 alice = Inr alice_token
   \<and> jwt_verify alice_token ''your_jwt_secret_key'' 1700000000123
       = Inr (payload_object alice @ registered_claims 1700000000123)"
proof -
  have s: "JWT_SECRET None = ''your_jwt_secret_key''"
    by (simp add: JWT_SECRET_def)
  from jwt_verify_generated [OF generateToken_alice, of 1700000000123]
  show ?thesis by (simp add: s generateToken_alice)
qed


text \<open>
  Claim C10. With \<open>JWT_SECRET\<close> unset, \<open>generateToken\<close> and \<open>verifyToken\<close> both use the
  constant \<open>'your_jwt_secret_key'\<close> and neither reports an error; so a token generated by
  one unconfigured process verifies in any unconfigured process for as long as it has
  not expired.
\<close>

theorem unconfigured_default_secret:
  "JWT_SECRET None = ''your_jwt_secret_key''
   \<and> generateToken None t P = jwt_sign P ''your_jwt_secret_key'' t
   \<and> (\<exists>token. generateToken None t P = Inr token)
   \<and> verifyToken None now token =
       (case jwt_verify token ''your_jwt_secret_key'' now of
          Inr decoded \<Rightarrow> Some decoded
        | Inl error \<Rightarrow> None)
   \<and> (generateToken None t P = Inr token \<and> now div 1000 < t div 1000 + 86400 \<longrightarrow>
        verifyToken None now token = Some (payload_object P @ registered_claims t))"
proof -
  have s: "JWT_SECRET None = ''your_jwt_secret_key''"
    by (simp add: JWT_SECRET_def)
  have "generateToken None t P = jwt_sign P ''your_jwt_secret_key'' t"
    by (simp add: generateToken_def s)
  moreover have "\<exists>token. generateToken None t P = Inr token"
    by (simp add: generateToken_Inr)
  moreover have "verifyToken None now token =
       (case jwt_verify token ''your_jwt_secret_key'' now of
          Inr decoded \<Rightarrow> Some decoded
        | Inl error \<Rightarrow> None)"
    by (simp add: verifyToken_def s)
  moreover have "generateToken None t P = Inr token \<and> now div 1000 < t div 1000 + 86400 \<longrightarrow>
        verifyToken None now token = Some (payload_object P @ registered_claims t)"
    by (auto simp: verifyToken_generated)
  ultimately show ?thesis using s by blast
qed

theorem unconfigured_default_secret_witness:
  "generateToken None 1700000000123 alice = jwt_sign alice ''your_jwt_secret_key'' 1700000000123
   \<and> jwt_sign alice ''your_jwt_secret_key'' 1700000000123 = Inr alice_token
   \<and> verifyToken None 1700003600000 alice_token
       = Some (payload_object alice @ registered_claims 1700000000123)"
proof -
  note u = unconfigured_default_secret [of 1700000000123 alice 1700003600000 alice_token]
  have lt: "(1700003600000::int) div 1000 < 1700000000123 div 1000 + 86400" by simp
  from u have 1: "generateToken None 1700000000123 alice
      = jwt_sign alice ''your_jwt_secret_key'' 1700000000123"
    by blast
  with generateToken_alice
  have 2: "jwt_sign alice ''your_jwt_secret_key'' 1700000000123 = Inr alice_token"
    by simp
  from u generateToken_alice lt
  have 3: "verifyToken None 1700003600000 alice_token
       = Some (payload_object alice @ registered_claims 1700000000123)"
    by blast
  from 1 2 3 show ?thesis by blast
qed


section \<open>The authorization gate\<close>

lemma bearer_token_Bearer:
  "CHR '' '' \<notin> set token \<Longrightarrow> authorization req = Some (''Bearer '' @ token) \<Longrightarrow>
   bearer_token req = Some token"
proof -
  assume ns: "CHR '' '' \<notin> set token" and a: "authorization req = Some (''Bearer '' @ token)"
  have "split_on (CHR '' '') (''Bearer'' @ CHR '' '' # token) = ''Bearer'' # split_on (CHR '' '') token"
    by (rule split_on_append) simp
  with ns have "split_on (CHR '' '') (''Bearer '' @ token) = [''Bearer'', token]"
    by (simp add: split_on_none)
  with a show ?thesis by (simp add: bearer_token_def)
qed

lemma bearer_token_segment:
  "bearer_token req =
     (case authorization req of
        None \<Rightarrow> None
      | Some header \<Rightarrow>
          if 2 \<le> length (split_on (CHR '' '') header)
          then Some (split_on (CHR '' '') header ! 1) else None)"
  by (auto simp: bearer_token_def split: option.splits list.splits)

lemma authMiddleware_no_token:
  "bearer_token req = None \<or> bearer_token req = Some [] \<Longrightarrow>
   authMiddleware env now req = Responded (reply 401 (error_body ''No token provided''))"
  by (auto simp: authMiddleware_def)

lemma authMiddleware_invalid:
  "bearer_token req = Some token \<Longrightarrow> token \<noteq> [] \<Longrightarrow> verifyToken env now token = None \<Longrightarrow>
   authMiddleware env now req = Responded (reply 401 (error_body ''Invalid token''))"
  by (simp add: authMiddleware_def)

lemma authMiddleware_valid:
  "bearer_token req = Some token \<Longrightarrow> token \<noteq> [] \<Longrightarrow>
   verifyToken env now token = Some payload \<Longrightarrow>
   authMiddleware env now req = Next (req\<lparr>user := Some payload\<rparr>)"
  by (simp add: authMiddleware_def)


text \<open>
  Claim C2. On a protected route the gate takes as token the second segment of the
  \<open>Authorization\<close> header split at single spaces. When the header or that segment is
  absent or empty it answers 401 with \<open>{"error": "No token provided"}\<close>; when the token
  fails verification it answers 401 with \<open>{"error": "Invalid token"}\<close>; in both cases
  \<open>next()\<close> is not called, so the route's answer is that of the gate. When verification
  succeeds the decoded payload becomes \<open>req.user\<close> and the handler runs.
\<close>

theorem authMiddleware_gate:
  "bearer_token req =
     (case authorization req of
        None \<Rightarrow> None
      | Some header \<Rightarrow>
          if 2 \<le> length (split_on (CHR '' '') header)
          then Some (split_on (CHR '' '') header ! 1) else None)
   \<and> (bearer_token req = None \<or> bearer_token req = Some [] \<longrightarrow>
        authMiddleware env now req = Responded (reply 401 (error_body ''No token provided''))
        \<and> me_route env now req = reply 401 (error_body ''No token provided''))
   \<and> (\<forall>token. bearer_token req = Some token \<and> token \<noteq> [] \<and> verifyToken env now token = None \<longrightarrow>
        authMiddleware env now req = Responded (reply 401 (error_body ''Invalid token''))
        \<and> me_route env now req = reply 401 (error_body ''Invalid token''))
   \<and> (\<forall>token payload.
        bearer_token req = Some token \<and> token \<noteq> [] \<and> verifyToken env now token = Some payload \<longrightarrow>
        authMiddleware env now req = Next (req\<lparr>user := Some payload\<rparr>)
        \<and> me_route env now req = reply 200 [(''user'', Object payload)])"
proof (intro conjI allI impI)
  show "bearer_token req =
     (case authorization req of
        None \<Rightarrow> None
      | Some header \<Rightarrow>
          if 2 \<le> length (split_on (CHR '' '') header)
          then Some (split_on (CHR '' '') header ! 1) else None)"
    by (rule bearer_token_segment)
next
  assume "bearer_token req = None \<or> bearer_token req = Some []"
  then show a: "authMiddleware env now req = Responded (reply 401 (error_body ''No token provided''))"
    by (rule authMiddleware_no_token)
  then show "me_route env now req = reply 401 (error_body ''No token provided'')"
    by (simp add: me_route_def)
next
  fix token
  assume "bearer_token req = Some token \<and> token \<noteq> [] \<and> verifyToken env now token = None"
  then show a: "authMiddleware env now req = Responded (reply 401 (error_body ''Invalid token''))"
    by (simp add: authMiddleware_invalid)
  then show "me_route env now req = reply 401 (error_body ''Invalid token'')"
    by (simp add: me_route_def)
next
  fix token payload
  assume "bearer_token req = Some token \<and> token \<noteq> [] \<and> verifyToken env now token = Some payload"
  then show a: "authMiddleware env now req = Next (req\<lparr>user := Some payload\<rparr>)"
    by (simp add: authMiddleware_valid)
  then show "me_route env now req = reply 200 [(''user'', Object payload)]"
    by (simp add: me_route_def user_member_def)
qed

theorem authMiddleware_gate_witness:
  "authMiddleware None 1700000000999 anonymous
     = Responded (reply 401 (error_body ''No token provided''))
   \<and> authMiddleware None 1700000000999 (anonymous\<lparr>authorization := Some ''Bearer ''\<rparr>)
     = Responded (reply 401 (error_body ''No token provided''))
   \<and> authMiddleware None 1700000000999 (anonymous\<lparr>authorization := Some (''Bearer '' @ alice_token)\<rparr>)
     = Next (anonymous\<lparr>authorization := Some (''Bearer '' @ alice_token),
          user := Some (payload_object alice @ registered_claims 1700000000123)\<rparr>)
   \<and> authMiddleware None 1700086400000 (anonymous\<lparr>authorization := Some (''Bearer '' @ alice_token)\<rparr>)
     = Responded (reply 401 (error_body ''Invalid token''))"
proof -
  let ?req = "anonymous\<lparr>authorization := Some (''Bearer '' @ alice_token)\<rparr>"
  have b0: "bearer_token anonymous = None"
    by (simp add: bearer_token_def anonymous_def)
  have b1: "bearer_token (anonymous\<lparr>authorization := Some ''Bearer ''\<rparr>) = Some []"
    by (simp add: bearer_token_def anonymous_def)
  have b2: "bearer_token ?req = Some alice_token"
    by (rule bearer_token_Bearer [OF generated_no_space [OF generateToken_alice]]) simp
  have ne: "alice_token \<noteq> []"
    by (rule generated_nonempty [OF generateToken_alice])
  have v1: "verifyToken None 1700000000999 alice_token
      = Some (payload_object alice @ registered_claims 1700000000123)"
    by (simp add: verifyToken_generated [OF generateToken_alice])
  have v2: "verifyToken None 1700086400000 alice_token = None"
    by (simp add: verifyToken_generated [OF generateToken_alice])
  from authMiddleware_gate [of anonymous None 1700000000999] b0
  have 1: "authMiddleware None 1700000000999 anonymous
      = Responded (reply 401 (error_body ''No token provided''))"
    by simp
  from authMiddleware_gate [of "anonymous\<lparr>authorization := Some ''Bearer ''\<rparr>" None 1700000000999] b1
  have 2: "authMiddleware None 1700000000999 (anonymous\<lparr>authorization := Some ''Bearer ''\<rparr>)
      = Responded (reply 401 (error_body ''No token provided''))"
    by simp
  from authMiddleware_gate [of ?req None 1700000000999] b2 ne v1
  have 3: "authMiddleware None 1700000000999 ?req
      = Next (?req\<lparr>user := Some (payload_object alice @ registered_claims 1700000000123)\<rparr>)"
    by blast
  from authMiddleware_gate [of ?req None 1700086400000] b2 ne v2
  have 4: "authMiddleware None 1700086400000 ?req
      = Responded (reply 401 (error_body ''Invalid token''))"
    by blast
  from 1 2 3 4 show ?thesis by simp
qed

section \<open>The routes\<close>

subsection \<open>Selecting from a table keyed by email\<close>

lemma filter_unique:
  "distinct (map f xs) \<Longrightarrow> x \<in> set xs \<Longrightarrow> filter (\<lambda>r. f r = f x) xs = [x]"
proof (induction xs)
  case Nil
  then show ?case by simp
next
  case (Cons a xs)
  show ?case
  proof (cases "a = x")
    case True
    with Cons.prems have "f x \<notin> f ` set xs" by simp
    then have "\<forall>r\<in>set xs. f r \<noteq> f x" by (metis imageI)
    then have "filter (\<lambda>r. f r = f x) xs = []" by (simp add: filter_empty_conv)
    with True show ?thesis by simp
  next
    case False
    with Cons.prems have "x \<in> set xs" "f a \<notin> f ` set xs" by simp_all
    then have "f a \<noteq> f x" by auto
    with Cons False \<open>x \<in> set xs\<close> show ?thesis by simp
  qed
qed

lemma select_eq_present:
  "keyed_by_email rows \<Longrightarrow> r \<in> set rows \<Longrightarrow>
   select_eq row_email_id (row_email_id r) rows = Some r"
  by (simp add: select_eq_def keyed_by_email_def filter_unique single_def)

lemma select_eq_absent:
  "\<forall>r\<in>set rows. column r \<noteq> v \<Longrightarrow> select_eq column v rows = None"
proof -
  assume "\<forall>r\<in>set rows. column r \<noteq> v"
  then have "filter (\<lambda>r. column r = v) rows = []" by (auto simp: filter_empty_conv)
  then show ?thesis by (simp add: select_eq_def single_def)
qed

lemma select_eq_None_keyed:
  "keyed_by_email rows \<Longrightarrow> select_eq row_email_id e rows = None \<Longrightarrow>
   \<forall>r\<in>set rows. row_email_id r \<noteq> e"
  using select_eq_present by fastforce

lemma signup_missing:
  "falsy (username (body req)) \<or> falsy (email_id (body req)) \<or> falsy (password (body req)) \<Longrightarrow>
   signup env w db req = (reply 400 (error_body ''Missing required fields''), db)"
  by (auto simp: signup_def falsy_def split: option.splits)

lemma signup_auth_missing:
  "falsy (username (body req)) \<or> falsy (email_id (body req)) \<or> falsy (password (body req)) \<Longrightarrow>
   signup_auth env w db req = (reply 400 (error_body ''Missing required fields''), db)"
  by (auto simp: signup_auth_def falsy_def split: option.splits)

lemma signup_existing:
  assumes "\<not> falsy (username (body req))" "\<not> falsy (password (body req))"
    and "email_id (body req) = Some e" "e \<noteq> []"
    and "select_eq row_email_id e (profiles db) = Some existingUser"
  shows "signup env w db req = (reply 409 (error_body ''User already exists''), db)"
  using assms by (auto simp: signup_def falsy_def split: option.splits)

lemma signup_auth_existing:
  assumes "\<not> falsy (username (body req))" "\<not> falsy (password (body req))"
    and "email_id (body req) = Some e" "e \<noteq> []"
    and "select_eq row_email_id e (profiles db) = Some existingUser"
  shows "signup_auth env w db req = (reply 409 (error_body ''User already exists''), db)"
  using assms by (auto simp: signup_auth_def falsy_def split: option.splits)

lemma signup_proceeds:
  assumes "snd (signup env w db req) \<noteq> db \<or> status (fst (signup env w db req)) = 201"
  shows "\<exists>u e p. username (body req) = Some u \<and> email_id (body req) = Some e
      \<and> password (body req) = Some p \<and> u \<noteq> [] \<and> e \<noteq> [] \<and> p \<noteq> []
      \<and> select_eq row_email_id e (profiles db) = None"
  using assms
  by (auto simp: signup_def reply_def Let_def split: option.splits if_splits sum.splits)

lemma signup_auth_proceeds:
  assumes "snd (signup_auth env w db req) \<noteq> db \<or> status (fst (signup_auth env w db req)) = 201"
  shows "\<exists>u e p. username (body req) = Some u \<and> email_id (body req) = Some e
      \<and> password (body req) = Some p \<and> u \<noteq> [] \<and> e \<noteq> [] \<and> p \<noteq> []
      \<and> select_eq row_email_id e (profiles db) = None"
  using assms
  by (auto simp: signup_auth_def reply_def Let_def
      split: option.splits if_splits sum.splits auth_reply.splits)

lemma signin_unknown_email:
  assumes "email_id (body req) = Some e" "password (body req) = Some p" "e \<noteq> []" "p \<noteq> []"
    and "select_eq row_email_id e (profiles db) = None"
  shows "signin env w db req = reply 401 (error_body ''Invalid email or password'')"
  using assms by (simp add: signin_def)

lemma signin_wrong_password:
  assumes "email_id (body req) = Some e" "password (body req) = Some p" "e \<noteq> []" "p \<noteq> []"
    and "select_eq row_email_id e (profiles db) = Some userData"
    and "row_password_hash userData = Some h" "\<not> bcrypt_compare w p h"
  shows "signin env w db req = reply 401 (error_body ''Invalid email or password'')"
  using assms by (simp add: signin_def)

lemma signin_auth_rejected:
  assumes "email_id (body req) = Some e" "password (body req) = Some p" "e \<noteq> []" "p \<noteq> []"
    and "\<forall>userId. auth_signIn w e p \<noteq> AuthUser userId"
  shows "signin_auth env w db req = reply 401 (error_body ''Invalid credentials'')"
  using assms by (cases "auth_signIn w e p") (simp_all add: signin_auth_def)

lemma verifyToken_not_a_token: "verifyToken env now ''not-a-token'' = None"
  by (simp add: verifyToken_def jwt_verify_def)

lemma signup_alice:
  "signup None quiet_world empty_backend alice_credentials =
     (reply 201 [(''message'', Text ''User created successfully''), (''token'', Text alice_token),
                 (''user'', Object (user_object ''u-1'' ''a@x.com'' ''alice''))],
      \<lparr>profiles = [alice_row], accounts = []\<rparr>)"
proof -
  have "generateToken None 1700000000123 \<lparr>id' = ''u-1'', email = ''a@x.com'', name = ''alice''\<rparr>
      = Inr alice_token"
    using generateToken_alice by (simp add: alice_def)
  then show ?thesis
    by (simp add: signup_def Let_def alice_credentials_def anonymous_def quiet_world_def
        empty_backend_def select_eq_def single_def alice_row_def)
qed


text \<open>
  Claim C9. A signup request with \<open>username\<close>, \<open>email_id\<close> or \<open>password\<close> missing (or
  empty) is answered 400 and the store is left as it was. A complete request whose email
  already has a record in the store (keyed by email) is answered 409, and again nothing
  is stored. Whenever a record or an account is created, or 201 is answered, all three
  fields were present and no record had that email. Both variants of the handler.
\<close>

theorem signup_guards:
  "(falsy (username (body req)) \<or> falsy (email_id (body req)) \<or> falsy (password (body req)) \<longrightarrow>
      signup env w db req = (reply 400 (error_body ''Missing required fields''), db)
      \<and> signup_auth env w db req = (reply 400 (error_body ''Missing required fields''), db))
   \<and> (\<forall>e existingUser.
        \<not> falsy (username (body req)) \<and> \<not> falsy (password (body req))
        \<and> email_id (body req) = Some e \<and> e \<noteq> []
        \<and> keyed_by_email (profiles db)
        \<and> existingUser \<in> set (profiles db) \<and> row_email_id existingUser = e \<longrightarrow>
      signup env w db req = (reply 409 (error_body ''User already exists''), db)
      \<and> signup_auth env w db req = (reply 409 (error_body ''User already exists''), db))
   \<and> (keyed_by_email (profiles db)
        \<and> (snd (signup env w db req) \<noteq> db \<or> status (fst (signup env w db req)) = 201
           \<or> snd (signup_auth env w db req) \<noteq> db
           \<or> status (fst (signup_auth env w db req)) = 201) \<longrightarrow>
      \<not> falsy (username (body req)) \<and> \<not> falsy (email_id (body req))
      \<and> \<not> falsy (password (body req))
      \<and> (\<forall>r\<in>set (profiles db). Some (row_email_id r) \<noteq> email_id (body req)))"
proof (intro conjI allI impI)
  assume "falsy (username (body req)) \<or> falsy (email_id (body req)) \<or> falsy (password (body req))"
  then show "signup env w db req = (reply 400 (error_body ''Missing required fields''), db)"
    and "signup_auth env w db req = (reply 400 (error_body ''Missing required fields''), db)"
    by (simp_all add: signup_missing signup_auth_missing)
next
  fix e existingUser
  assume a: "\<not> falsy (username (body req)) \<and> \<not> falsy (password (body req))
        \<and> email_id (body req) = Some e \<and> e \<noteq> []
        \<and> keyed_by_email (profiles db)
        \<and> existingUser \<in> set (profiles db) \<and> row_email_id existingUser = e"
  then have "select_eq row_email_id e (profiles db) = Some existingUser"
    using select_eq_present by blast
  with a show "signup env w db req = (reply 409 (error_body ''User already exists''), db)"
    and "signup_auth env w db req = (reply 409 (error_body ''User already exists''), db)"
    by (simp_all add: signup_existing signup_auth_existing)
next
  assume a: "keyed_by_email (profiles db)
        \<and> (snd (signup env w db req) \<noteq> db \<or> status (fst (signup env w db req)) = 201
           \<or> snd (signup_auth env w db req) \<noteq> db
           \<or> status (fst (signup_auth env w db req)) = 201)"
  then obtain u e p where f: "username (body req) = Some u" "email_id (body req) = Some e"
      "password (body req) = Some p" "u \<noteq> []" "e \<noteq> []" "p \<noteq> []"
      "select_eq row_email_id e (profiles db) = None"
    using signup_proceeds [of env w db req] signup_auth_proceeds [of env w db req] by blast
  from f show "\<not> falsy (username (body req))" "\<not> falsy (email_id (body req))"
    "\<not> falsy (password (body req))"
    by (simp_all add: falsy_def)
  from a f(7) have "\<forall>r\<in>set (profiles db). row_email_id r \<noteq> e"
    using select_eq_None_keyed by blast
  with f(2) show "\<forall>r\<in>set (profiles db). Some (row_email_id r) \<noteq> email_id (body req)"
    by simp
qed

theorem signup_guards_witness:
  "signup None quiet_world empty_backend anonymous
     = (reply 400 (error_body ''Missing required fields''), empty_backend)
   \<and> signup_auth None quiet_world empty_backend
       (alice_credentials\<lparr>body := (body alice_credentials)\<lparr>password := Some []\<rparr>\<rparr>)
     = (reply 400 (error_body ''Missing required fields''), empty_backend)
   \<and> signup None quiet_world \<lparr>profiles = [alice_row], accounts = []\<rparr> alice_credentials
     = (reply 409 (error_body ''User already exists''), \<lparr>profiles = [alice_row], accounts = []\<rparr>)
   \<and> (status (fst (signup None quiet_world empty_backend alice_credentials)) = 201
      \<and> \<not> falsy (username (body alice_credentials)))"
proof -
  have 1: "signup None quiet_world empty_backend anonymous
     = (reply 400 (error_body ''Missing required fields''), empty_backend)"
    using signup_guards [of anonymous None quiet_world empty_backend]
    by (simp add: falsy_def anonymous_def)
  let ?r = "alice_credentials\<lparr>body := (body alice_credentials)\<lparr>password := Some []\<rparr>\<rparr>"
  have "falsy (password (body ?r))" by (simp add: falsy_def)
  with signup_guards [of ?r None quiet_world empty_backend]
  have 2: "signup_auth None quiet_world empty_backend ?r
     = (reply 400 (error_body ''Missing required fields''), empty_backend)"
    by blast
  let ?db = "\<lparr>profiles = [alice_row], accounts = []\<rparr>"
  have "\<not> falsy (username (body alice_credentials))"
    "\<not> falsy (password (body alice_credentials))"
    "email_id (body alice_credentials) = Some ''a@x.com''" "''a@x.com'' \<noteq> []"
    "keyed_by_email (profiles ?db)" "alice_row \<in> set (profiles ?db)"
    "row_email_id alice_row = ''a@x.com''"
    by (simp_all add: falsy_def alice_credentials_def keyed_by_email_def alice_row_def)
  with signup_guards [of alice_credentials None quiet_world ?db]
  have 3: "signup None quiet_world ?db alice_credentials
     = (reply 409 (error_body ''User already exists''), ?db)"
    by blast
  have s: "status (fst (signup None quiet_world empty_backend alice_credentials)) = 201"
    by (simp add: signup_alice reply_def)
  have "keyed_by_email (profiles empty_backend)"
    by (simp add: keyed_by_email_def empty_backend_def)
  with signup_guards [of alice_credentials None quiet_world empty_backend] s
  have 4: "\<not> falsy (username (body alice_credentials))"
    by blast
  from 1 2 3 4 s show ?thesis by blast
qed

text \<open>
  Claim C8. The spec has every authentication failure answered with 401 and one uniform
  message. The status holds; the message is uniform only within each kind of failure,
  and the claim is proved as amended: every authentication failure is answered with
  status 401. Signin gives one message for an unknown email and for a wrong password
  (\<open>Invalid email or password\<close>; \<open>Invalid credentials\<close> in the Supabase Auth variant), and
  the gate gives one message, \<open>Invalid token\<close>, for every token that fails verification,
  an expired one included. A missing token gets the different message
  \<open>No token provided\<close>.
\<close>

theorem authentication_failures:
  "(\<forall>e p. email_id (body req) = Some e \<and> password (body req) = Some p \<and> e \<noteq> [] \<and> p \<noteq> []
        \<and> (\<forall>r\<in>set (profiles db). row_email_id r \<noteq> e) \<longrightarrow>
      signin env w db req = reply 401 (error_body ''Invalid email or password''))
   \<and> (\<forall>e p userData h.
        email_id (body req) = Some e \<and> password (body req) = Some p \<and> e \<noteq> [] \<and> p \<noteq> []
        \<and> keyed_by_email (profiles db) \<and> userData \<in> set (profiles db)
        \<and> row_email_id userData = e \<and> row_password_hash userData = Some h
        \<and> \<not> bcrypt_compare w p h \<longrightarrow>
      signin env w db req = reply 401 (error_body ''Invalid email or password''))
   \<and> (\<forall>e p. email_id (body req) = Some e \<and> password (body req) = Some p \<and> e \<noteq> [] \<and> p \<noteq> []
        \<and> (\<forall>userId. auth_signIn w e p \<noteq> AuthUser userId) \<longrightarrow>
      signin_auth env w db req = reply 401 (error_body ''Invalid credentials''))
   \<and> (bearer_token req = None \<or> bearer_token req = Some [] \<longrightarrow>
      authMiddleware env now req = Responded (reply 401 (error_body ''No token provided'')))
   \<and> (\<forall>token. bearer_token req = Some token \<and> token \<noteq> [] \<and> verifyToken env now token = None \<longrightarrow>
      authMiddleware env now req = Responded (reply 401 (error_body ''Invalid token'')))
   \<and> (\<forall>token t P. bearer_token req = Some token \<and> generateToken env t P = Inr token
        \<and> t div 1000 + 86400 \<le> now div 1000 \<longrightarrow>
      authMiddleware env now req = Responded (reply 401 (error_body ''Invalid token'')))"
proof (intro conjI allI impI)
  fix e p
  assume a: "email_id (body req) = Some e \<and> password (body req) = Some p \<and> e \<noteq> [] \<and> p \<noteq> []
        \<and> (\<forall>r\<in>set (profiles db). row_email_id r \<noteq> e)"
  then have "select_eq row_email_id e (profiles db) = None"
    by (simp add: select_eq_absent)
  with a show "signin env w db req = reply 401 (error_body ''Invalid email or password'')"
    by (simp add: signin_unknown_email)
next
  fix e p userData h
  assume a: "email_id (body req) = Some e \<and> password (body req) = Some p \<and> e \<noteq> [] \<and> p \<noteq> []
        \<and> keyed_by_email (profiles db) \<and> userData \<in> set (profiles db)
        \<and> row_email_id userData = e \<and> row_password_hash userData = Some h
        \<and> \<not> bcrypt_compare w p h"
  then have "select_eq row_email_id e (profiles db) = Some userData"
    using select_eq_present by blast
  with a show "signin env w db req = reply 401 (error_body ''Invalid email or password'')"
    using signin_wrong_password by blast
next
  fix e p
  assume "email_id (body req) = Some e \<and> password (body req) = Some p \<and> e \<noteq> [] \<and> p \<noteq> []
        \<and> (\<forall>userId. auth_signIn w e p \<noteq> AuthUser userId)"
  then show "signin_auth env w db req = reply 401 (error_body ''Invalid credentials'')"
    using signin_auth_rejected by blast
next
  assume "bearer_token req = None \<or> bearer_token req = Some []"
  then show "authMiddleware env now req = Responded (reply 401 (error_body ''No token provided''))"
    by (rule authMiddleware_no_token)
next
  fix token
  assume "bearer_token req = Some token \<and> token \<noteq> [] \<and> verifyToken env now token = None"
  then show "authMiddleware env now req = Responded (reply 401 (error_body ''Invalid token''))"
    by (simp add: authMiddleware_invalid)
next
  fix token t P
  assume a: "bearer_token req = Some token \<and> generateToken env t P = Inr token
        \<and> t div 1000 + 86400 \<le> now div 1000"
  then have g: "generateToken env t P = Inr token" by simp
  from a have "verifyToken env now token = None"
    by (simp add: verifyToken_generated [OF g])
  moreover have "token \<noteq> []"
    by (rule generated_nonempty [OF g])
  ultimately show "authMiddleware env now req = Responded (reply 401 (error_body ''Invalid token''))"
    using a by (simp add: authMiddleware_invalid)
qed

theorem authentication_failures_witness:
  "signin None quiet_world empty_backend alice_credentials
     = reply 401 (error_body ''Invalid email or password'')
   \<and> signin None quiet_world \<lparr>profiles = [alice_row], accounts = []\<rparr>
       (alice_credentials\<lparr>body := (body alice_credentials)\<lparr>password := Some ''wrong''\<rparr>\<rparr>)
     = reply 401 (error_body ''Invalid email or password'')
   \<and> signin_auth None quiet_world empty_backend alice_credentials
     = reply 401 (error_body ''Invalid credentials'')
   \<and> authMiddleware None 1700000000999 anonymous
     = Responded (reply 401 (error_body ''No token provided''))
   \<and> authMiddleware None 1700000000999 (anonymous\<lparr>authorization := Some ''Bearer not-a-token''\<rparr>)
     = Responded (reply 401 (error_body ''Invalid token''))
   \<and> authMiddleware None 1700086400000
       (anonymous\<lparr>authorization := Some (''Bearer '' @ alice_token)\<rparr>)
     = Responded (reply 401 (error_body ''Invalid token''))"
proof -
  note t = authentication_failures
  have c: "email_id (body alice_credentials) = Some ''a@x.com''"
    "password (body alice_credentials) = Some ''pw123456''"
    by (simp_all add: alice_credentials_def)
  have "\<forall>r\<in>set (profiles empty_backend). row_email_id r \<noteq> ''a@x.com''"
    by (simp add: empty_backend_def)
  with t [of alice_credentials empty_backend None quiet_world 0] c
  have 1: "signin None quiet_world empty_backend alice_credentials
     = reply 401 (error_body ''Invalid email or password'')"
    by simp
  let ?r = "alice_credentials\<lparr>body := (body alice_credentials)\<lparr>password := Some ''wrong''\<rparr>\<rparr>"
  let ?db = "\<lparr>profiles = [alice_row], accounts = []\<rparr>"
  have "email_id (body ?r) = Some ''a@x.com''" "password (body ?r) = Some ''wrong''"
    "keyed_by_email (profiles ?db)" "alice_row \<in> set (profiles ?db)"
    "row_email_id alice_row = ''a@x.com''"
    "row_password_hash alice_row = Some ''$2a$10$pw123456''"
    "\<not> bcrypt_compare quiet_world ''wrong'' ''$2a$10$pw123456''"
    by (simp_all add: alice_credentials_def keyed_by_email_def alice_row_def quiet_world_def)
  with t [of ?r ?db None quiet_world 0]
  have 2: "signin None quiet_world ?db ?r = reply 401 (error_body ''Invalid email or password'')"
    by blast
  have "\<forall>userId. auth_signIn quiet_world ''a@x.com'' ''pw123456'' \<noteq> AuthUser userId"
    by (simp add: quiet_world_def)
  with t [of alice_credentials empty_backend None quiet_world 0] c
  have 3: "signin_auth None quiet_world empty_backend alice_credentials
     = reply 401 (error_body ''Invalid credentials'')"
    by simp
  have "bearer_token anonymous = None"
    by (simp add: bearer_token_def anonymous_def)
  with t [of anonymous empty_backend None quiet_world 1700000000999]
  have 4: "authMiddleware None 1700000000999 anonymous
     = Responded (reply 401 (error_body ''No token provided''))"
    by simp
  have "bearer_token (anonymous\<lparr>authorization := Some ''Bearer not-a-token''\<rparr>) = Some ''not-a-token''"
    by (simp add: bearer_token_def anonymous_def)
  with t [of "anonymous\<lparr>authorization := Some ''Bearer not-a-token''\<rparr>" empty_backend None
      quiet_world 1700000000999] verifyToken_not_a_token [of None 1700000000999]
  have 5: "authMiddleware None 1700000000999 (anonymous\<lparr>authorization := Some ''Bearer not-a-token''\<rparr>)
     = Responded (reply 401 (error_body ''Invalid token''))"
    by simp
  let ?q = "anonymous\<lparr>authorization := Some (''Bearer '' @ alice_token)\<rparr>"
  have "bearer_token ?q = Some alice_token"
    by (rule bearer_token_Bearer [OF generated_no_space [OF generateToken_alice]]) simp
  moreover have "(1700000000123::int) div 1000 + 86400 \<le> 1700086400000 div 1000" by simp
  ultimately have 6: "authMiddleware None 1700086400000 ?q
     = Responded (reply 401 (error_body ''Invalid token''))"
    using t [of ?q empty_backend None quiet_world 1700086400000] generateToken_alice by blast
  from 1 2 3 4 5 6 show ?thesis by blast
qed

text \<open>
  Claim C8 as the spec states it fails: a request without a token and a request with an
  invalid token are both authentication failures, and their bodies differ; the body of a
  failed signin differs from both.
\<close>

theorem authentication_messages_counterexample:
  "authMiddleware None 1700000000999 anonymous
     = Responded (reply 401 (error_body ''No token provided''))
   \<and> authMiddleware None 1700000000999 (anonymous\<lparr>authorization := Some ''Bearer not-a-token''\<rparr>)
     = Responded (reply 401 (error_body ''Invalid token''))
   \<and> signin None quiet_world empty_backend alice_credentials
     = reply 401 (error_body ''Invalid email or password'')
   \<and> error_body ''No token provided'' \<noteq> error_body ''Invalid token''
   \<and> error_body ''Invalid token'' \<noteq> error_body ''Invalid email or password''"
proof -
  have "bearer_token anonymous = None"
    by (simp add: bearer_token_def anonymous_def)
  then have 1: "authMiddleware None 1700000000999 anonymous
     = Responded (reply 401 (error_body ''No token provided''))"
    by (simp add: authMiddleware_no_token)
  have "bearer_token (anonymous\<lparr>authorization := Some ''Bearer not-a-token''\<rparr>) = Some ''not-a-token''"
    by (simp add: bearer_token_def anonymous_def)
  then have 2: "authMiddleware None 1700000000999
       (anonymous\<lparr>authorization := Some ''Bearer not-a-token''\<rparr>)
     = Responded (reply 401 (error_body ''Invalid token''))"
    by (simp add: authMiddleware_invalid verifyToken_not_a_token)
  have 3: "signin None quiet_world empty_backend alice_credentials
     = reply 401 (error_body ''Invalid email or password'')"
    by (simp add: signin_def alice_credentials_def anonymous_def empty_backend_def
        select_eq_def single_def)
  have 4: "error_body ''No token provided'' \<noteq> error_body ''Invalid token''"
    "error_body ''Invalid token'' \<noteq> error_body ''Invalid email or password''"
    by (simp_all add: error_body_def)
  from 1 2 3 4 show ?thesis by blast
qed

section \<open>Further properties\<close>

lemma jwt_verify_Inr_split:
  assumes "jwt_verify token secret now = Inr decoded"
  shows "\<exists>h p. split_on (CHR ''.'') token
      = [h, p, base64url (hmac_sha256 secret (h @ ''.'' @ p))]"
proof -
  from assms obtain h p sg where sp: "split_on (CHR ''.'') token = [h, p, sg]"
    by (auto simp: jwt_verify_def split: if_splits list.splits)
  from assms have "sg = base64url (hmac_sha256 secret (h @ ''.'' @ p))"
    unfolding jwt_verify_def sp
    by (simp split: if_splits option.splits)
  with sp show ?thesis by blast
qed

lemma split_on_single: "split_on c xs = [s] \<Longrightarrow> xs = s"
  using split_on_Cons [of c xs s "[]"] by simp

lemma signup_profiles:
  "profiles (snd (signup env w db req)) = profiles db
   \<or> (\<exists>u e p. email_id (body req) = Some e
        \<and> select_eq row_email_id e (profiles db) = None
        \<and> profiles (snd (signup env w db req)) = profiles db @
            [\<lparr>row_id = uuidv4 w, row_email_id = e, row_username = u,
              row_password_hash = Some (bcrypt_hash w p), subscription_tier = 0,
              created_at = clock w\<rparr>])"
  by (auto simp: signup_def Let_def split: option.splits sum.splits)

lemma signup_auth_profiles:
  "profiles (snd (signup_auth env w db req)) = profiles db
   \<or> (\<exists>u e uid. email_id (body req) = Some e
        \<and> select_eq row_email_id e (profiles db) = None
        \<and> profiles (snd (signup_auth env w db req)) = profiles db @
            [\<lparr>row_id = uid, row_email_id = e, row_username = u,
              row_password_hash = None, subscription_tier = 0,
              created_at = clock w\<rparr>])"
  by (auto simp: signup_auth_def Let_def split: option.splits sum.splits auth_reply.splits)

lemma keyed_by_email_append:
  assumes "keyed_by_email rows" "select_eq row_email_id e rows = None" "row_email_id r = e"
  shows "keyed_by_email (rows @ [r])"
proof -
  from assms(1,2) have "\<forall>x\<in>set rows. row_email_id x \<noteq> e"
    by (rule select_eq_None_keyed)
  with assms(1,3) show ?thesis
    by (auto simp: keyed_by_email_def)
qed

lemma me_route_valid:
  assumes "authorization r = Some (''Bearer '' @ token)"
    and "generateToken env t P = Inr token"
    and "now div 1000 < t div 1000 + 86400"
  shows "me_route env now r = reply 200 [(''user'', Object (payload_object P @ registered_claims t))]"
proof -
  have "bearer_token r = Some token"
    by (rule bearer_token_Bearer [OF generated_no_space [OF assms(2)] assms(1)])
  moreover have "token \<noteq> []"
    by (rule generated_nonempty [OF assms(2)])
  moreover have "verifyToken env now token = Some (payload_object P @ registered_claims t)"
    using assms(3) by (simp add: verifyToken_generated [OF assms(2)])
  ultimately have "authMiddleware env now r
      = Next (r\<lparr>user := Some (payload_object P @ registered_claims t)\<rparr>)"
    by (rule authMiddleware_valid)
  then show ?thesis by (simp add: me_route_def user_member_def)
qed

lemma signup_created:
  assumes "status (fst (signup env w db req)) = 201"
  shows "\<exists>u e token. username (body req) = Some u \<and> email_id (body req) = Some e
     \<and> generateToken env (clock w) \<lparr>id' = uuidv4 w, email = e, name = u\<rparr> = Inr token
     \<and> json (fst (signup env w db req))
         = [(''message'', Text ''User created successfully''), (''token'', Text token),
            (''user'', Object (user_object (uuidv4 w) e u))]"
  using assms
  by (auto simp: signup_def reply_def Let_def split: option.splits if_splits sum.splits)


text \<open>
  \<open>generateToken\<close> never throws: the secret it passes to \<open>jwt.sign\<close> is never empty,
  whatever the environment holds.
\<close>

theorem generateToken_never_throws:
  "generateToken env now payload
     = Inr (jws_sign (JSON_stringify jwt_header)
              (JSON_stringify (payload_object payload @ registered_claims now)) (JWT_SECRET env))
   \<and> JWT_SECRET env \<noteq> []"
  by (simp add: generateToken_Inr JWT_SECRET_nonempty)


text \<open>
  Integrity of the signature segment: a token of \<open>generateToken\<close> whose third segment is
  replaced by any other string (the empty one included) fails verification.
\<close>

theorem signature_segment_integrity:
  assumes "generateToken env t P = Inr (h @ ''.'' @ p @ ''.'' @ sg)"
    and "CHR ''.'' \<notin> set h" "CHR ''.'' \<notin> set p" "CHR ''.'' \<notin> set sg"
    and "sg' \<noteq> sg"
  shows "verifyToken env now (h @ ''.'' @ p @ ''.'' @ sg') = None"
proof (rule ccontr)
  assume "verifyToken env now (h @ ''.'' @ p @ ''.'' @ sg') \<noteq> None"
  then obtain d where "jwt_verify (h @ ''.'' @ p @ ''.'' @ sg') (JWT_SECRET env) now = Inr d"
    by (auto simp: verifyToken_def split: sum.splits)
  from jwt_verify_Inr_split [OF this] obtain h2 p2 where
    sp: "split_on (CHR ''.'') (h @ ''.'' @ p @ ''.'' @ sg')
      = [h2, p2, base64url (hmac_sha256 (JWT_SECRET env) (h2 @ ''.'' @ p2))]"
    by blast
  have "split_on (CHR ''.'') (h @ ''.'' @ p @ ''.'' @ sg') = h # p # split_on (CHR ''.'') sg'"
    using assms(2,3) by (simp add: split_on_append)
  with sp have "split_on (CHR ''.'') sg'
      = [base64url (hmac_sha256 (JWT_SECRET env) (h @ ''.'' @ p))]"
    by auto
  then have sg': "sg' = base64url (hmac_sha256 (JWT_SECRET env) (h @ ''.'' @ p))"
    by (rule split_on_single)
  define H where "H = base64url (JSON_stringify jwt_header)"
  define B where "B = base64url (JSON_stringify (payload_object P @ registered_claims t))"
  define S where "S = base64url (hmac_sha256 (JWT_SECRET env) (H @ ''.'' @ B))"
  have tok: "h @ ''.'' @ p @ ''.'' @ sg = H @ ''.'' @ B @ ''.'' @ S"
    using assms(1) by (simp add: generateToken_Inr jws_sign_def Let_def H_def B_def S_def)
  have "split_on (CHR ''.'') (h @ ''.'' @ p @ ''.'' @ sg) = [h, p, sg]"
    using split_on_three [OF assms(2-4)] by simp
  moreover have "split_on (CHR ''.'') (H @ ''.'' @ B @ ''.'' @ S) = [H, B, S]"
    using split_on_three [of "CHR ''.''" H B S]
    by (simp add: H_def B_def S_def base64url_no_dot)
  ultimately have "h = H" "p = B" "sg = S"
    unfolding tok by simp_all
  then have "sg = base64url (hmac_sha256 (JWT_SECRET env) (h @ ''.'' @ p))"
    by (simp add: S_def)
  with sg' assms(5) show False by simp
qed

theorem signature_segment_integrity_witness:
  "verifyToken None 1700000000999
     (base64url (JSON_stringify jwt_header) @ ''.''
        @ base64url (JSON_stringify (payload_object alice @ registered_claims 1700000000123))
        @ ''.'') = None"
proof -
  define H where "H = base64url (JSON_stringify jwt_header)"
  define B where "B = base64url (JSON_stringify (payload_object alice @ registered_claims 1700000000123))"
  define S where "S = base64url (hmac_sha256 ''your_jwt_secret_key'' (H @ ''.'' @ B))"
  have g: "generateToken None 1700000000123 alice = Inr (H @ ''.'' @ B @ ''.'' @ S)"
    by (simp add: generateToken_Inr jws_sign_def Let_def JWT_SECRET_def H_def B_def S_def)
  have "S \<noteq> []"
    unfolding S_def by (rule base64url_nonempty [OF hmac_sha256_nonempty])
  then have "[] \<noteq> S" by simp
  from signature_segment_integrity [OF g _ _ _ this, of 1700000000999]
  have "verifyToken None 1700000000999 (H @ ''.'' @ B @ ''.'' @ []) = None"
    by (simp add: H_def B_def S_def base64url_no_dot)
  then show ?thesis by (simp add: H_def B_def)
qed


lemma hmac_key_block_zero_padded:
  assumes "length key < 64"
  shows "hmac_key_block (key @ [CHR 0x00]) = hmac_key_block key"
proof -
  from assms have "64 - length key = Suc (63 - length key)" by simp
  then have "replicate (64 - length key) (CHR 0x00)
      = CHR 0x00 # replicate (63 - length key) (CHR 0x00)"
    by simp
  with assms show ?thesis
    by (simp add: hmac_key_block_def)
qed


text \<open>
  HMAC pads a key shorter than its 64-byte block with zero bytes, so such a key and the
  same key followed by a zero byte give every message the same signature. Which secrets
  \<open>jwt.verify\<close> tells apart is therefore a property of HMAC-SHA256 and not of the
  comparison of the secrets as strings.
\<close>

theorem hmac_sha256_zero_padded:
  assumes "length key < 64"
  shows "hmac_sha256 (key @ [CHR 0x00]) m = hmac_sha256 key m"
  by (simp add: hmac_sha256_def hmac_key_block_zero_padded [OF assms])

theorem hmac_sha256_zero_padded_witness:
  "hmac_sha256 (''k'' @ [CHR 0x00]) ''a.b'' = hmac_sha256 ''k'' ''a.b''"
  by (rule hmac_sha256_zero_padded) simp

text \<open>
  Signup keeps the store keyed by email: when no two records share an email before a
  signup request, none do after it. Both variants of the handler.
\<close>

theorem signup_keeps_store_keyed:
  assumes "keyed_by_email (profiles db)"
  shows "keyed_by_email (profiles (snd (signup env w db req)))
    \<and> keyed_by_email (profiles (snd (signup_auth env w db req)))"
proof
  from signup_profiles [of env w db req] assms
  show "keyed_by_email (profiles (snd (signup env w db req)))"
    by (auto simp: keyed_by_email_append)
  from signup_auth_profiles [of env w db req] assms
  show "keyed_by_email (profiles (snd (signup_auth env w db req)))"
    by (auto simp: keyed_by_email_append)
qed

theorem signup_keeps_store_keyed_witness:
  "keyed_by_email (profiles empty_backend)
   \<and> snd (signup None quiet_world empty_backend alice_credentials)
       = \<lparr>profiles = [alice_row], accounts = []\<rparr>
   \<and> keyed_by_email [alice_row]"
proof -
  have k: "keyed_by_email (profiles empty_backend)"
    by (simp add: keyed_by_email_def empty_backend_def)
  from signup_keeps_store_keyed [OF k, of None quiet_world alice_credentials]
  have "keyed_by_email [alice_row]"
    by (simp add: signup_alice)
  with k show ?thesis by (simp add: signup_alice)
qed

text \<open>
  From signup to \<open>/me\<close>: when signup answers 201, the token in its answer, presented as
  \<open>Bearer\<close> token within 24 hours, makes \<open>/me\<close> answer 200 with the id, email and name
  of the account just created.
\<close>

theorem signup_then_me:
  assumes "status (fst (signup env w db req)) = 201"
  shows "\<exists>u e token. username (body req) = Some u \<and> email_id (body req) = Some e
     \<and> json (fst (signup env w db req))
         = [(''message'', Text ''User created successfully''), (''token'', Text token),
            (''user'', Object (user_object (uuidv4 w) e u))]
     \<and> (\<forall>now r. now div 1000 < clock w div 1000 + 86400
            \<and> authorization r = Some (''Bearer '' @ token) \<longrightarrow>
          me_route env now r
            = reply 200 [(''user'', Object
                (payload_object \<lparr>id' = uuidv4 w, email = e, name = u\<rparr>
                   @ registered_claims (clock w)))])"
proof -
  from signup_created [OF assms] obtain u e token where
    f: "username (body req) = Some u" "email_id (body req) = Some e"
      "generateToken env (clock w) \<lparr>id' = uuidv4 w, email = e, name = u\<rparr> = Inr token"
      "json (fst (signup env w db req))
         = [(''message'', Text ''User created successfully''), (''token'', Text token),
            (''user'', Object (user_object (uuidv4 w) e u))]"
    by blast
  have "\<forall>now r. now div 1000 < clock w div 1000 + 86400
            \<and> authorization r = Some (''Bearer '' @ token) \<longrightarrow>
          me_route env now r
            = reply 200 [(''user'', Object
                (payload_object \<lparr>id' = uuidv4 w, email = e, name = u\<rparr>
                   @ registered_claims (clock w)))]"
    using me_route_valid [OF _ f(3)] by blast
  with f show ?thesis by blast
qed

theorem signup_then_me_witness:
  "status (fst (signup None quiet_world empty_backend alice_credentials)) = 201
   \<and> me_route None 1700003600000 (anonymous\<lparr>authorization := Some (''Bearer '' @ alice_token)\<rparr>)
       = reply 200 [(''user'', Object
           [(''id'', JString ''u-1''), (''email'', JString ''a@x.com''),
            (''name'', JString ''alice''), (''iat'', JNumber 1700000000),
            (''exp'', JNumber 1700086400)])]"
proof -
  have s: "status (fst (signup None quiet_world empty_backend alice_credentials)) = 201"
    by (simp add: signup_alice reply_def)
  from signup_then_me [OF s] obtain u e token where
    f: "username (body alice_credentials) = Some u" "email_id (body alice_credentials) = Some e"
      "json (fst (signup None quiet_world empty_backend alice_credentials))
         = [(''message'', Text ''User created successfully''), (''token'', Text token),
            (''user'', Object (user_object (uuidv4 quiet_world) e u))]"
      "\<forall>now r. now div 1000 < clock quiet_world div 1000 + 86400
            \<and> authorization r = Some (''Bearer '' @ token) \<longrightarrow>
          me_route None now r
            = reply 200 [(''user'', Object
                (payload_object \<lparr>id' = uuidv4 quiet_world, email = e, name = u\<rparr>
                   @ registered_claims (clock quiet_world)))]"
    by blast
  from f(1,2) have ue: "u = ''alice''" "e = ''a@x.com''"
    by (simp_all add: alice_credentials_def)
  from f(3) have tk: "token = alice_token"
    by (simp add: signup_alice reply_def)
  have "(1700003600000::int) div 1000 < clock quiet_world div 1000 + 86400"
    by (simp add: quiet_world_def)
  with f(4) [rule_format, of 1700003600000
      "anonymous\<lparr>authorization := Some (''Bearer '' @ alice_token)\<rparr>"] tk ue
  have "me_route None 1700003600000 (anonymous\<lparr>authorization := Some (''Bearer '' @ alice_token)\<rparr>)
      = reply 200 [(''user'', Object
          (payload_object \<lparr>id' = uuidv4 quiet_world, email = ''a@x.com'', name = ''alice''\<rparr>
             @ registered_claims (clock quiet_world)))]"
    by simp
  with s show ?thesis
    by (simp add: payload_object_def registered_claims_def quiet_world_def)
qed

end
